theory Spec2Isabelle
  imports Complex_Main "HOL-Library.Word"
begin

unbundle bit_operations_syntax

section \<open>Python values, exceptions and helpers\<close>

text \<open>
  The exceptions the modelled code can raise. \<open>ValidationError\<close> is the exception of
  \<open>_utils.check_parameter_valid\<close>; it carries the description string the caller passed.
  \<open>RangeError\<close> is the register codec's out-of-range failure, \<open>StructError\<close> is
  \<open>struct.error\<close>, \<open>TransportError\<close> is a failure of the device link.
\<close>

datatype error =
    ValidationError string
  | RangeError
  | IndexError
  | KeyError
  | ZeroDivisionError
  | StructError
  | TransportError

fun is_validation_error :: "error option \<Rightarrow> bool" where
  "is_validation_error (Some (ValidationError d)) = True"
| "is_validation_error uu = False"

text \<open>Python floats are idealised as real numbers: no rounding error, no overflow, no NaN.\<close>

text \<open>\<open>xs[i]\<close> for a non-negative index: Python raises IndexError out of range.\<close>

definition py_index :: "'a list \<Rightarrow> nat \<Rightarrow> error + 'a" where
  "py_index xs i = (if i < length xs then Inr (xs ! i) else Inl IndexError)"

text \<open>\<open>int(round(x))\<close>, with Python 3's rounding of a half to the even neighbour.\<close>

definition py_round :: "real \<Rightarrow> int" where
  "py_round x =
     (let f = \<lfloor>x\<rfloor>; d = x - of_int f
      in if d < 1 / 2 then f else if 1 / 2 < d then f + 1 else if even f then f else f + 1)"

text \<open>A loop whose body may raise: the first exception ends it.\<close>

fun mapM_e :: "('a \<Rightarrow> error + 'b) \<Rightarrow> 'a list \<Rightarrow> error + 'b list" where
  "mapM_e f [] = Inr []"
| "mapM_e f (x # xs) =
     (case f x of
        Inl e \<Rightarrow> Inl e
      | Inr y \<Rightarrow> (case mapM_e f xs of Inl e \<Rightarrow> Inl e | Inr ys \<Rightarrow> Inr (y # ys)))"

text \<open>\<open>"%s" % m\<close> for a non-negative integer: its decimal digits.\<close>

definition digit_char :: "nat \<Rightarrow> char" where
  "digit_char d = char_of (48 + d)"

function str_nat :: "nat \<Rightarrow> string" where
  "str_nat n = (if n < 10 then [digit_char n] else str_nat (n div 10) @ [digit_char (n mod 10)])"
  by pat_completeness auto
termination
  by (relation "measure id") auto

text \<open>
  Modelled from the spec: \<open>_utils.check_parameter_valid\<close> is not among the sources. The
  spec's setters "validate physical-unit ranges and structural invariants" and raise a
  validation error "naming the offending field"; the ranges are closed, as in
  "25 outside [-20,20]". The \<open>'set'\<close> check passes when the value is one of the allowed
  values, the \<open>'range'\<close> check when it lies between the two bounds, both included.
\<close>

definition check_parameter_valid_set :: "'a \<Rightarrow> 'a list \<Rightarrow> string \<Rightarrow> error option" where
  "check_parameter_valid_set v allowed desc =
     (if v \<in> set allowed then None else Some (ValidationError desc))"

definition check_parameter_valid_range :: "real \<Rightarrow> real \<Rightarrow> real \<Rightarrow> string \<Rightarrow> error option" where
  "check_parameter_valid_range v lo hi desc =
     (if lo \<le> v \<and> v \<le> hi then None else Some (ValidationError desc))"

section \<open>Constants of \<open>_iirfilterbox.py\<close>\<close>

definition REG_ENABLE :: nat where "REG_ENABLE = 96"
definition REG_MONSELECT :: nat where "REG_MONSELECT = 111"
definition REG_INPUTOFFSET_CH0 :: nat where "REG_INPUTOFFSET_CH0 = 112"
definition REG_INPUTOFFSET_CH1 :: nat where "REG_INPUTOFFSET_CH1 = 113"
definition REG_OUTPUTOFFSET_CH0 :: nat where "REG_OUTPUTOFFSET_CH0 = 114"
definition REG_OUTPUTOFFSET_CH1 :: nat where "REG_OUTPUTOFFSET_CH1 = 115"
definition REG_CH0_CH0GAIN :: nat where "REG_CH0_CH0GAIN = 116"
definition REG_CH0_CH1GAIN :: nat where "REG_CH0_CH1GAIN = 117"
definition REG_CH1_CH0GAIN :: nat where "REG_CH1_CH0GAIN = 118"
definition REG_CH1_CH1GAIN :: nat where "REG_CH1_CH1GAIN = 119"
definition REG_INPUTSCALE_CH0 :: nat where "REG_INPUTSCALE_CH0 = 120"
definition REG_INPUTSCALE_CH1 :: nat where "REG_INPUTSCALE_CH1 = 121"
definition REG_OUTPUTSCALE_CH0 :: nat where "REG_OUTPUTSCALE_CH0 = 122"
definition REG_OUTPUTSCALE_CH1 :: nat where "REG_OUTPUTSCALE_CH1 = 123"
definition REG_SAMPLINGFREQ :: nat where "REG_SAMPLINGFREQ = 124"
definition REG_FILT_RESET :: nat where "REG_FILT_RESET = 62"

definition IIR_MON_NONE :: nat where "IIR_MON_NONE = 0"
definition IIR_MON_ADC1 :: nat where "IIR_MON_ADC1 = 1"
definition IIR_MON_IN1 :: nat where "IIR_MON_IN1 = 2"
definition IIR_MON_OUT1 :: nat where "IIR_MON_OUT1 = 3"
definition IIR_MON_ADC2 :: nat where "IIR_MON_ADC2 = 4"
definition IIR_MON_IN2 :: nat where "IIR_MON_IN2 = 5"
definition IIR_MON_OUT2 :: nat where "IIR_MON_OUT2 = 6"
definition IIR_COEFFWIDTH :: nat where "IIR_COEFFWIDTH = 48"

definition ADC_DEFAULT_CALIBRATION :: real where "ADC_DEFAULT_CALIBRATION = 3750"

section \<open>The instrument's state\<close>

text \<open>
  An \<open>IIRFilterBox\<close> instance together with the two things of its environment that
  \<open>set_filter\<close> touches. \<open>regs\<close> is the local register file the attribute accessors of
  \<open>_iir_reg_handlers\<close> write to (a register never written reads as 0). The \<open>priv_\<close>
  fields are the underscore-prefixed attributes that "remember user settings prior to
  on-commit reg calculations". \<open>filter_ch1\<close> and \<open>filter_ch2\<close> are the stored coefficient
  tables; once stored their rows are only read, so they are kept as values.

  The classes \<open>DecFilter\<close>, \<open>MokuInstrument\<close> and \<open>_CoreOscilloscope\<close> are not among the
  sources. What this file reads from them is kept as fields: the decimation factor last
  given to each \<open>DecFilter\<close>, the memory-access flag, the attenuation flag
  \<open>get_frontend(ch)[1]\<close> of each input, the values of \<open>_adc_gains()\<close> and
  \<open>_dac_gains()\<close>, \<open>is_precision_mode()\<close> and \<open>_deci_gain()\<close>.
  \<open>data_dat\<close> is the scratch file \<open>.data.dat\<close> (\<open>None\<close> when it does not exist) and
  \<open>sent_files\<close> lists the uploads the device has received, oldest first.
\<close>

record iirfilterbox =
  regs :: "nat \<Rightarrow> 32 word"
  priv_matrixscale_ch1_ch1 :: real
  priv_matrixscale_ch1_ch2 :: real
  priv_matrixscale_ch2_ch1 :: real
  priv_matrixscale_ch2_ch2 :: real
  priv_input_scale1 :: real
  priv_output_scale1 :: real
  priv_input_offset1 :: real
  priv_output_offset1 :: real
  priv_input_scale2 :: real
  priv_output_scale2 :: real
  priv_input_offset2 :: real
  priv_output_offset2 :: real
  filter_ch1 :: "real list list"
  filter_ch2 :: "real list list"
  decfilter1 :: nat
  decfilter2 :: nat
  mmap_access :: bool
  frontend_atten1 :: bool
  frontend_atten2 :: bool
  adc_gain1 :: real
  adc_gain2 :: real
  dac_gain1 :: real
  dac_gain2 :: real
  precision_mode :: bool
  deci_gain :: real
  data_dat :: "nat list option"
  sent_files :: "(char \<times> nat list) list"

text \<open>Statements in sequence: an exception ends the sequence and keeps the state reached.\<close>

fun seq_all :: "('s \<Rightarrow> error option \<times> 's) list \<Rightarrow> 's \<Rightarrow> error option \<times> 's" where
  "seq_all [] s = (None, s)"
| "seq_all (f # fs) s = (case f s of (Some e, s') \<Rightarrow> (Some e, s') | (None, s') \<Rightarrow> seq_all fs s')"

section \<open>The register codec\<close>

type_synonym xform = "iirfilterbox \<Rightarrow> real \<Rightarrow> error + real"
type_synonym encoder = "iirfilterbox \<Rightarrow> real \<Rightarrow> 32 word \<Rightarrow> error + 32 word"

definition no_xform :: xform where
  "no_xform obj x = Inr x"

text \<open>
  Modelled from the spec: \<open>to_reg_unsigned\<close>, \<open>to_reg_signed\<close>, \<open>to_reg_bool\<close>,
  \<open>from_reg_unsigned\<close> and \<open>from_reg_signed\<close> (\<open>_instrument.py\<close>) are not among the
  sources. Following section 4.1 of the spec, an encoder applies the transform, rounds to
  the nearest integer, validates \<open>0 \<le> raw < 2^width\<close> (unsigned) or
  \<open>-2^(width-1) \<le> raw < 2^(width-1)\<close> (signed) and fails with a range error otherwise;
  the signed value is stored as its two's-complement bit pattern at the offset, and the
  bits of the co-resident fields are preserved. A decoder extracts the bits and
  sign-extends a signed field.
\<close>

definition to_reg_unsigned :: "nat \<Rightarrow> nat \<Rightarrow> xform \<Rightarrow> encoder" where
  "to_reg_unsigned off len xf obj val old =
     (case xf obj val of
        Inl e \<Rightarrow> Inl e
      | Inr r \<Rightarrow>
          (let raw = py_round r
           in if 0 \<le> raw \<and> raw < 2 ^ len
              then Inr ((old AND NOT (push_bit off (mask len))) OR push_bit off (word_of_int raw))
              else Inl RangeError))"

definition to_reg_signed :: "nat \<Rightarrow> nat \<Rightarrow> xform \<Rightarrow> encoder" where
  "to_reg_signed off len xf obj val old =
     (case xf obj val of
        Inl e \<Rightarrow> Inl e
      | Inr r \<Rightarrow>
          (let raw = py_round r
           in if - (2 ^ (len - 1)) \<le> raw \<and> raw < 2 ^ (len - 1)
              then Inr ((old AND NOT (push_bit off (mask len)))
                        OR push_bit off (take_bit len (word_of_int raw)))
              else Inl RangeError))"

definition to_reg_bool :: "nat \<Rightarrow> encoder" where
  "to_reg_bool off = to_reg_unsigned off 1 no_xform"

definition from_reg_unsigned :: "nat \<Rightarrow> nat \<Rightarrow> 32 word \<Rightarrow> nat" where
  "from_reg_unsigned off len w = unat (take_bit len (drop_bit off w))"


section \<open>The attribute table \<open>_iir_reg_handlers\<close>\<close>

datatype attr =
    Mon1_source | Mon2_source
  | Input_en1 | Input_en2 | Output_en1 | Output_en2
  | Matrixscale_ch1_ch1 | Matrixscale_ch1_ch2 | Matrixscale_ch2_ch1 | Matrixscale_ch2_ch2
  | Ch1_sampling_freq | Ch2_sampling_freq
  | Filter_reset
  | Input_scale1 | Input_scale2 | Output_scale1 | Output_scale2
  | Input_offset1 | Input_offset2 | Output_offset1 | Output_offset2

text \<open>
  The transforms of the table's encoders, one per lambda of the source. A division by a
  gain that is zero raises \<open>ZeroDivisionError\<close>.
\<close>

definition matrixscale_xform :: "(iirfilterbox \<Rightarrow> bool) \<Rightarrow> (iirfilterbox \<Rightarrow> real) \<Rightarrow> xform" where
  "matrixscale_xform atten gain obj x =
     Inr (of_int (py_round (x * (ADC_DEFAULT_CALIBRATION / (if atten obj then 10 else 1))
                              * gain obj * 2 ^ 10)))"

definition input_scale_xform :: xform where
  "input_scale_xform obj x = Inr (x * 2 ^ 9)"

definition output_scale_xform :: "(iirfilterbox \<Rightarrow> real) \<Rightarrow> xform" where
  "output_scale_xform gain obj x =
     (if ADC_DEFAULT_CALIBRATION * 2 ^ 3 * gain obj = 0 then Inl ZeroDivisionError
      else Inr (of_int (py_round (x * 2 ^ 9 / (ADC_DEFAULT_CALIBRATION * 2 ^ 3 * gain obj)))))"

definition input_offset_xform :: "(iirfilterbox \<Rightarrow> bool) \<Rightarrow> xform" where
  "input_offset_xform atten obj x =
     Inr (of_int (py_round (2 * x * ADC_DEFAULT_CALIBRATION / (if atten obj then 10 else 1))))"

definition output_offset_xform :: "(iirfilterbox \<Rightarrow> real) \<Rightarrow> xform" where
  "output_offset_xform gain obj x =
     (if gain obj = 0 then Inl ZeroDivisionError else Inr (of_int (py_round (x / gain obj))))"

fun iir_reg_handlers :: "attr \<Rightarrow> nat \<times> encoder" where
  "iir_reg_handlers Mon1_source = (REG_MONSELECT, to_reg_unsigned 0 3 no_xform)"
| "iir_reg_handlers Mon2_source = (REG_MONSELECT, to_reg_unsigned 3 3 no_xform)"
| "iir_reg_handlers Input_en1 = (REG_ENABLE, to_reg_unsigned 0 1 no_xform)"
| "iir_reg_handlers Input_en2 = (REG_ENABLE, to_reg_unsigned 1 1 no_xform)"
| "iir_reg_handlers Output_en1 = (REG_ENABLE, to_reg_unsigned 2 1 no_xform)"
| "iir_reg_handlers Output_en2 = (REG_ENABLE, to_reg_unsigned 3 1 no_xform)"
| "iir_reg_handlers Matrixscale_ch1_ch1 =
     (REG_CH0_CH0GAIN, to_reg_signed 0 16 (matrixscale_xform frontend_atten1 adc_gain1))"
| "iir_reg_handlers Matrixscale_ch1_ch2 =
     (REG_CH0_CH1GAIN, to_reg_signed 0 16 (matrixscale_xform frontend_atten2 adc_gain2))"
| "iir_reg_handlers Matrixscale_ch2_ch1 =
     (REG_CH1_CH0GAIN, to_reg_signed 0 16 (matrixscale_xform frontend_atten1 adc_gain1))"
| "iir_reg_handlers Matrixscale_ch2_ch2 =
     (REG_CH1_CH1GAIN, to_reg_signed 0 16 (matrixscale_xform frontend_atten2 adc_gain2))"
| "iir_reg_handlers Ch1_sampling_freq = (REG_SAMPLINGFREQ, to_reg_unsigned 0 1 no_xform)"
| "iir_reg_handlers Ch2_sampling_freq = (REG_SAMPLINGFREQ, to_reg_unsigned 1 1 no_xform)"
| "iir_reg_handlers Filter_reset = (REG_FILT_RESET, to_reg_bool 0)"
| "iir_reg_handlers Input_scale1 = (REG_INPUTSCALE_CH0, to_reg_signed 0 18 input_scale_xform)"
| "iir_reg_handlers Input_scale2 = (REG_INPUTSCALE_CH1, to_reg_signed 0 18 input_scale_xform)"
| "iir_reg_handlers Output_scale1 =
     (REG_OUTPUTSCALE_CH0, to_reg_signed 0 18 (output_scale_xform dac_gain1))"
| "iir_reg_handlers Output_scale2 =
     (REG_OUTPUTSCALE_CH1, to_reg_signed 0 18 (output_scale_xform dac_gain2))"
| "iir_reg_handlers Input_offset1 =
     (REG_INPUTOFFSET_CH0, to_reg_signed 0 14 (input_offset_xform frontend_atten1))"
| "iir_reg_handlers Input_offset2 =
     (REG_INPUTOFFSET_CH1, to_reg_signed 0 14 (input_offset_xform frontend_atten2))"
| "iir_reg_handlers Output_offset1 =
     (REG_OUTPUTOFFSET_CH0, to_reg_signed 0 17 (output_offset_xform dac_gain1))"
| "iir_reg_handlers Output_offset2 =
     (REG_OUTPUTOFFSET_CH1, to_reg_signed 0 17 (output_offset_xform dac_gain2))"

text \<open>
  Assigning to a register-backed attribute (\<open>self.name = value\<close>): the encoder of the
  table computes the new register value from the old one; when it fails the register
  file is left as it was and the exception propagates.
\<close>

definition set_attr :: "attr \<Rightarrow> real \<Rightarrow> iirfilterbox \<Rightarrow> error option \<times> iirfilterbox" where
  "set_attr a v s =
     (case iir_reg_handlers a of
        (reg, enc) \<Rightarrow>
          (case enc s v (regs s reg) of
             Inl e \<Rightarrow> (Some e, s)
           | Inr w \<Rightarrow> (None, s\<lparr>regs := (regs s)(reg := w)\<rparr>)))"

text \<open>\<open>self.name = self._name\<close>: the attribute is given the remembered user value.\<close>

definition copy_attr :: "attr \<Rightarrow> (iirfilterbox \<Rightarrow> real) \<Rightarrow> iirfilterbox \<Rightarrow> error option \<times> iirfilterbox" where
  "copy_attr a priv s = set_attr a (priv s) s"

text \<open>Reading \<open>self.mon1_source\<close> and \<open>self.mon2_source\<close> decodes the register field.\<close>

definition mon1_source :: "iirfilterbox \<Rightarrow> nat" where
  "mon1_source s = from_reg_unsigned 0 3 (regs s REG_MONSELECT)"

definition mon2_source :: "iirfilterbox \<Rightarrow> nat" where
  "mon2_source s = from_reg_unsigned 3 3 (regs s REG_MONSELECT)"

section \<open>Commit\<close>

text \<open>
  The device link is a collaborator: each call to it either succeeds or raises a transport
  error. A \<open>transport\<close> says which of the calls a setter makes succeed.
\<close>

datatype call = SetterCommit | MmapEnable | SendFile | MmapDisable | FinalCommit

type_synonym transport = "call \<Rightarrow> bool"

definition raising :: "error option \<Rightarrow> 's \<Rightarrow> error option \<times> 's" where
  "raising r s = (r, s)"

definition update_control_matrix_regs :: "iirfilterbox \<Rightarrow> error option \<times> iirfilterbox" where
  "update_control_matrix_regs =
     seq_all
       [copy_attr Matrixscale_ch1_ch1 priv_matrixscale_ch1_ch1,
        copy_attr Matrixscale_ch1_ch2 priv_matrixscale_ch1_ch2,
        copy_attr Matrixscale_ch2_ch1 priv_matrixscale_ch2_ch1,
        copy_attr Matrixscale_ch2_ch2 priv_matrixscale_ch2_ch2]"

definition update_gains_offsets_regs :: "iirfilterbox \<Rightarrow> error option \<times> iirfilterbox" where
  "update_gains_offsets_regs =
     seq_all
       [copy_attr Input_scale1 priv_input_scale1,
        copy_attr Output_scale1 priv_output_scale1,
        copy_attr Input_offset1 priv_input_offset1,
        copy_attr Output_offset1 priv_output_offset1,
        copy_attr Input_scale2 priv_input_scale2,
        copy_attr Output_scale2 priv_output_scale2,
        copy_attr Input_offset2 priv_input_offset2,
        copy_attr Output_offset2 priv_output_offset2]"

text \<open>
  \<open>_update_dependent_regs\<close>. The call to the superclass is left out: \<open>_CoreOscilloscope\<close>
  is not among the sources and its registers are not part of this state. The \<open>scales\<close>
  argument is only passed on to that call.
\<close>

definition update_dependent_regs :: "iirfilterbox \<Rightarrow> error option \<times> iirfilterbox" where
  "update_dependent_regs = seq_all [update_control_matrix_regs, update_gains_offsets_regs]"

text \<open>
  Modelled from the spec: \<open>MokuInstrument.commit\<close>, \<open>_set_mmap_access\<close> and the decorator
  \<open>needs_commit\<close> (\<open>_instrument.py\<close>) are not among the sources. Following section 4.3
  of the spec, a commit recomputes the dependent registers and hands the writes to the
  transport, which succeeds or fails; a decorated setter commits once its body has
  returned; \<open>_set_mmap_access\<close> toggles the access-mode flag in "an immediate,
  synchronous sub-transaction" (the source: it "requires an immediate commit").
\<close>

definition commit :: "bool \<Rightarrow> iirfilterbox \<Rightarrow> error option \<times> iirfilterbox" where
  "commit link_ok =
     seq_all [update_dependent_regs, raising (if link_ok then None else Some TransportError)]"

definition needs_commit ::
  "transport \<Rightarrow> (iirfilterbox \<Rightarrow> error option \<times> iirfilterbox) \<Rightarrow> iirfilterbox \<Rightarrow> error option \<times> iirfilterbox" where
  "needs_commit link body = seq_all [body, commit (link SetterCommit)]"

definition set_mmap_access :: "bool \<Rightarrow> bool \<Rightarrow> iirfilterbox \<Rightarrow> error option \<times> iirfilterbox" where
  "set_mmap_access link_ok access =
     seq_all [(\<lambda>s. (None, s\<lparr>mmap_access := access\<rparr>)), commit link_ok]"

text \<open>
  Modelled from the spec: \<open>Moku._send_file\<close> is not among the sources. It is the
  transport's bulk binary upload \<open>send_file(tag, local_path) -> success/failure\<close> of
  section 6: on success the device has received the file's bytes under the tag.
\<close>

definition send_file :: "bool \<Rightarrow> char \<Rightarrow> iirfilterbox \<Rightarrow> error option \<times> iirfilterbox" where
  "send_file link_ok tag s =
     (case data_dat s of
        None \<Rightarrow> (Some TransportError, s)
      | Some bytes \<Rightarrow>
          if link_ok then (None, s\<lparr>sent_files := sent_files s @ [(tag, bytes)]\<rparr>)
          else (Some TransportError, s))"

section \<open>\<open>set_control_matrix\<close> and \<open>set_monitor\<close>\<close>

text \<open>
  The body of \<open>set_control_matrix\<close>. The warning logged for scalars with more than one
  decimal place changes nothing and is left out.
\<close>

definition set_control_matrix_body :: "int \<Rightarrow> real \<Rightarrow> real \<Rightarrow> iirfilterbox \<Rightarrow> error option \<times> iirfilterbox" where
  "set_control_matrix_body ch scale_in1 scale_in2 =
     seq_all
       [raising (check_parameter_valid_set ch [1, 2] ''filter channel''),
        raising (check_parameter_valid_range scale_in1 (- 20) 20 ''control matrix scale (ch1)''),
        raising (check_parameter_valid_range scale_in2 (- 20) 20 ''control matrix scale (ch2)''),
        (\<lambda>s. (None,
               if ch = 1
               then s\<lparr>priv_matrixscale_ch1_ch1 := scale_in1, priv_matrixscale_ch1_ch2 := scale_in2\<rparr>
               else s\<lparr>priv_matrixscale_ch2_ch1 := scale_in1, priv_matrixscale_ch2_ch2 := scale_in2\<rparr>))]"

definition set_control_matrix ::
  "transport \<Rightarrow> int \<Rightarrow> real \<Rightarrow> real \<Rightarrow> iirfilterbox \<Rightarrow> error option \<times> iirfilterbox" where
  "set_control_matrix link ch scale_in1 scale_in2 =
     needs_commit link (set_control_matrix_body ch scale_in1 scale_in2)"

definition sources :: "(string \<times> nat) list" where
  "sources =
     [(''none'', IIR_MON_NONE), (''adc1'', IIR_MON_ADC1), (''in1'', IIR_MON_IN1),
      (''out1'', IIR_MON_OUT1), (''adc2'', IIR_MON_ADC2), (''in2'', IIR_MON_IN2),
      (''out2'', IIR_MON_OUT2)]"

text \<open>
  The body of \<open>set_monitor\<close>. Both arguments are strings, so the two \<open>'string'\<close> checks
  pass; \<open>lower()\<close> leaves every value that passed the \<open>'set'\<close> checks as it is.
\<close>

definition set_monitor_body :: "string \<Rightarrow> string \<Rightarrow> iirfilterbox \<Rightarrow> error option \<times> iirfilterbox" where
  "set_monitor_body ch source =
     seq_all
       [raising (check_parameter_valid_set ch [''a'', ''b''] ''monitor channel''),
        raising (check_parameter_valid_set source
                   [''adc1'', ''in1'', ''out1'', ''adc2'', ''in2'', ''out2''] ''monitor source''),
        (\<lambda>s. case map_of sources source of
                None \<Rightarrow> (Some KeyError, s)
              | Some v \<Rightarrow>
                  if ch = ''a'' then set_attr Mon1_source (real v) s
                  else set_attr Mon2_source (real v) s)]"

definition set_monitor :: "transport \<Rightarrow> string \<Rightarrow> string \<Rightarrow> iirfilterbox \<Rightarrow> error option \<times> iirfilterbox" where
  "set_monitor link ch source = needs_commit link (set_monitor_body ch source)"

section \<open>Scales and frame decoding\<close>

text \<open>
  The dictionary of scales. \<open>_CoreOscilloscope._calculate_scales\<close> is not among the
  sources: the dictionary it returns is an argument of \<open>calculate_scales\<close>, which reads
  six of its entries and overwrites \<open>scale_ch1\<close> and \<open>scale_ch2\<close>.
\<close>

record scales =
  sc_atten_ch1 :: bool
  sc_atten_ch2 :: bool
  sc_gain_adc1 :: real
  sc_gain_adc2 :: real
  sc_gain_dac1 :: real
  sc_gain_dac2 :: real
  sc_scale_ch1 :: real
  sc_scale_ch2 :: real

text \<open>
  The table \<open>monitor_source_gains\<close>. Its keys are \<open>str\<close> of the source numbers; \<open>str\<close> is
  one-to-one on numbers, so the table is keyed by the numbers themselves.
\<close>

definition monitor_source_gains :: "real \<Rightarrow> real \<Rightarrow> real \<Rightarrow> real \<Rightarrow> (nat \<times> real) list" where
  "monitor_source_gains gain_adc1 gain_adc2 gain_dac1 gain_dac2 =
     [(IIR_MON_NONE, 1),
      (IIR_MON_ADC1, gain_adc1),
      (IIR_MON_IN1, 1 / ADC_DEFAULT_CALIBRATION),
      (IIR_MON_OUT1, gain_dac1 * 2 ^ 4),
      (IIR_MON_ADC2, gain_adc2),
      (IIR_MON_IN2, 1 / ADC_DEFAULT_CALIBRATION),
      (IIR_MON_OUT2, gain_dac2 * 2 ^ 4)]"

definition calculate_scales :: "scales \<Rightarrow> iirfilterbox \<Rightarrow> error + scales" where
  "calculate_scales base s =
     (let gain_adc1 = sc_gain_adc1 base / (if sc_atten_ch1 base then 10 else 1);
          gain_adc2 = sc_gain_adc2 base / (if sc_atten_ch2 base then 10 else 1);
          gain_dac1 = sc_gain_dac1 base;
          gain_dac2 = sc_gain_dac2 base;
          table = monitor_source_gains gain_adc1 gain_adc2 gain_dac1 gain_dac2
      in case map_of table (mon1_source s) of
           None \<Rightarrow> Inl KeyError
         | Some scale_ch1 \<Rightarrow>
             (case map_of table (mon2_source s) of
                None \<Rightarrow> Inl KeyError
              | Some scale_ch2 \<Rightarrow>
                  if precision_mode s
                  then (if deci_gain s = 0 then Inl ZeroDivisionError
                        else Inr (base\<lparr>sc_scale_ch1 := scale_ch1 / deci_gain s,
                                       sc_scale_ch2 := scale_ch2 / deci_gain s\<rparr>))
                  else Inr (base\<lparr>sc_scale_ch1 := scale_ch1, sc_scale_ch2 := scale_ch2\<rparr>)))"

text \<open>
  Modelled from the spec: the frame decoder (\<open>_oscilloscope.py\<close>, \<open>_frame_instrument.py\<close>)
  is not among the sources. Following section 4.5 of the spec it converts the raw samples
  of a frame into calibrated channel data with the scale state captured with the frame:
  each raw sample of channel A is multiplied by \<open>scale_ch1\<close>, each of channel B by
  \<open>scale_ch2\<close>.
\<close>

record frame =
  raw_ch1 :: "int list"
  raw_ch2 :: "int list"
  frame_scales :: scales

definition channel_a :: "frame \<Rightarrow> real list" where
  "channel_a f = map (\<lambda>r. of_int r * sc_scale_ch1 (frame_scales f)) (raw_ch1 f)"

definition channel_b :: "frame \<Rightarrow> real list" where
  "channel_b f = map (\<lambda>r. of_int r * sc_scale_ch2 (frame_scales f)) (raw_ch2 f)"

section \<open>Coefficient arrays\<close>

text \<open>
  The coefficient array a caller passes is a Python list of row objects, and two entries
  of the outer list may be the same row object (as in \<open>[b, b, b, b]\<close>, which
  \<open>set_defaults\<close> itself builds). \<open>set_filter\<close> updates rows in place, so the model keeps
  the sharing: \<open>row_refs\<close> is the outer list, of references, and \<open>heap\<close> gives the row
  each reference points to.
\<close>

type_synonym ref = nat

record py_array =
  row_refs :: "ref list"
  heap :: "ref \<Rightarrow> real list"

definition row :: "py_array \<Rightarrow> nat \<Rightarrow> real list" where
  "row a m = heap a (row_refs a ! m)"

definition get_row :: "py_array \<Rightarrow> nat \<Rightarrow> error + real list" where
  "get_row a m = (if m < length (row_refs a) then Inr (row a m) else Inl IndexError)"

definition bind_e :: "error + 'a \<Rightarrow> ('a \<Rightarrow> error + 'b) \<Rightarrow> error + 'b" where
  "bind_e r f = (case r of Inl e \<Rightarrow> Inl e | Inr x \<Rightarrow> f x)"

fun fold_e :: "('a \<Rightarrow> 's \<Rightarrow> error + 's) \<Rightarrow> 'a list \<Rightarrow> 's \<Rightarrow> error + 's" where
  "fold_e f [] s = Inr s"
| "fold_e f (x # xs) s = (case f x s of Inl e \<Rightarrow> Inl e | Inr s' \<Rightarrow> fold_e f xs s')"

fun first_error :: "error option list \<Rightarrow> error option" where
  "first_error [] = None"
| "first_error (Some e # rs) = Some e"
| "first_error (None # rs) = first_error rs"

text \<open>\<open>a[m][n]\<close> and \<open>a[m][n] = v\<close>; the assignment changes the row object in place.\<close>

definition get_entry :: "py_array \<Rightarrow> nat \<Rightarrow> nat \<Rightarrow> error + real" where
  "get_entry a m n = bind_e (get_row a m) (\<lambda>r. py_index r n)"

definition set_entry :: "py_array \<Rightarrow> nat \<Rightarrow> nat \<Rightarrow> real \<Rightarrow> error + py_array" where
  "set_entry a m n v =
     bind_e (get_row a m)
       (\<lambda>r. if n < length r then Inr (a\<lparr>heap := (heap a)(row_refs a ! m := r[n := v])\<rparr>)
             else Inl IndexError)"

text \<open>
  \<open>deepcopy\<close> builds new row objects and keeps the sharing between them: two entries that
  were one object are one object in the copy. The caller's array is a value here, so
  the copy is the same array.
\<close>

definition deepcopy :: "py_array \<Rightarrow> py_array" where
  "deepcopy a = a"

section \<open>\<open>set_filter\<close>\<close>

text \<open>The array dimension check (rows 0 to 3 only: the loop is \<open>for m in range(4)\<close>).\<close>

definition check_row_dimension :: "py_array \<Rightarrow> nat \<Rightarrow> error option" where
  "check_row_dimension fc m =
     (case get_row fc m of
        Inl e \<Rightarrow> Some e
      | Inr r \<Rightarrow>
          if m = 0
          then (if length r \<noteq> 1
                then check_parameter_valid_set (length r) [1]
                       ''number of columns in coefficient array row 0''
                else None)
          else (if length r \<noteq> 6
                then check_parameter_valid_set (length r) [6]
                       (''number of columns in coefficient array row '' @ str_nat m)
                else None))"

definition check_dimensions :: "py_array \<Rightarrow> error option" where
  "check_dimensions fc =
     first_error
       ((if length (row_refs fc) \<noteq> 5
         then check_parameter_valid_set (length (row_refs fc)) [5]
                ''number of coefficient array rows''
         else None)
        # map (check_row_dimension fc) [0..<4])"

text \<open>
  The array values check. Every range check is given the same description: the source
  formats it with \<open>(0, 0)\<close> whatever the entry.
\<close>

definition check_entry :: "py_array \<Rightarrow> nat \<Rightarrow> nat \<Rightarrow> real \<Rightarrow> real \<Rightarrow> error option" where
  "check_entry fc m n lo hi =
     (case get_entry fc m n of
        Inl e \<Rightarrow> Some e
      | Inr v \<Rightarrow> check_parameter_valid_range v lo hi ''coefficient array entry m = 0, n = 0'')"

definition check_values :: "py_array \<Rightarrow> error option" where
  "check_values fc =
     first_error
       (check_entry fc 0 0 (- 8000000) (8000000 - 1 / 2 ^ 24)
        # concat (map (\<lambda>m. map (\<lambda>n. check_entry fc m n (- 4) (4 - 1 / 2 ^ 45)) [0..<6]) [1..<5]))"

text \<open>\<open>a[n][j] *= a[n][0]\<close>\<close>

definition mul_entry :: "py_array \<Rightarrow> nat \<Rightarrow> nat \<Rightarrow> error + py_array" where
  "mul_entry a n j =
     bind_e (get_entry a n j) (\<lambda>b. bind_e (get_entry a n 0) (\<lambda>s. set_entry a n j (b * s)))"

text \<open>One round of the loop that multiplies the S coefficient into the B coefficients.\<close>

definition scale_section :: "nat \<Rightarrow> py_array \<Rightarrow> error + py_array" where
  "scale_section n a =
     bind_e (mul_entry a n 1)
       (\<lambda>a1. bind_e (mul_entry a1 n 2)
          (\<lambda>a2. bind_e (mul_entry a2 n 3)
             (\<lambda>a3. set_entry a3 n 0 1)))"

text \<open>
  The conversion to the memory-map format: the loop, the move of the gain G into the S
  slot of row 4, and the slice \<open>[1:5]\<close>, whose rows are read out as values.
\<close>

definition reshape :: "py_array \<Rightarrow> error + real list list" where
  "reshape intermediate_filter =
     bind_e (fold_e scale_section [1..<5] intermediate_filter)
       (\<lambda>a. bind_e (get_entry a 0 0)
          (\<lambda>g. bind_e (set_entry a 4 0 g)
             (\<lambda>a'. Inr (take 4 (drop 1 (map (heap a') (row_refs a')))))))"

definition store_filter :: "int \<Rightarrow> py_array option \<Rightarrow> iirfilterbox \<Rightarrow> error option \<times> iirfilterbox" where
  "store_filter ch filter_coefficients s =
     (case filter_coefficients of
        None \<Rightarrow> (None, s)
      | Some fc \<Rightarrow>
          (case first_error [check_dimensions fc, check_values fc] of
             Some e \<Rightarrow> (Some e, s)
           | None \<Rightarrow>
               (case reshape (deepcopy fc) of
                  Inl e \<Rightarrow> (Some e, s)
                | Inr rows \<Rightarrow>
                    (None, if ch = 1 then s\<lparr>filter_ch1 := rows\<rparr> else s\<lparr>filter_ch2 := rows\<rparr>))))"

text \<open>\<open>filter_coeffs[n] = self.filter_ch1[n] + self.filter_ch2[n]\<close> for the four sections.\<close>

definition combined_filters :: "iirfilterbox \<Rightarrow> error + real list list" where
  "combined_filters s =
     mapM_e (\<lambda>n. bind_e (py_index (filter_ch1 s) n)
                   (\<lambda>r1. bind_e (py_index (filter_ch2 s) n) (\<lambda>r2. Inr (r1 @ r2))))
       [0..<4]"

text \<open>
  \<open>coeff_list[x][y][k]\<close>: the fixed-point value of coefficient \<open>y\<close> of section \<open>x\<close> of
  channel \<open>k\<close>, with 24 fractional bits in the gain slot and 45 elsewhere.
\<close>

definition coeff_entry :: "real list list \<Rightarrow> nat \<Rightarrow> nat \<Rightarrow> nat \<Rightarrow> error + int" where
  "coeff_entry filter_coeffs x y k =
     bind_e (py_index filter_coeffs x)
       (\<lambda>r. bind_e (py_index r (y + k * 6))
          (\<lambda>v. Inr (if y = 0 then py_round (2 ^ (IIR_COEFFWIDTH - 24) * v)
                    else py_round (2 ^ (IIR_COEFFWIDTH - 3) * v))))"

definition coeff_list :: "real list list \<Rightarrow> error + int list list list" where
  "coeff_list filter_coeffs =
     mapM_e (\<lambda>x. mapM_e (\<lambda>y. mapM_e (\<lambda>k. coeff_entry filter_coeffs x y k) [0..<2]) [0..<6]) [0..<4]"

text \<open>
  \<open>struct.pack('<q', v)\<close>: the eight bytes of the two's complement of \<open>v\<close>, least
  significant first; \<open>struct.error\<close> when \<open>v\<close> is not a signed 64-bit value.
\<close>

fun le_bytes :: "nat \<Rightarrow> nat \<Rightarrow> nat list" where
  "le_bytes 0 v = []"
| "le_bytes (Suc n) v = (v mod 256) # le_bytes n (v div 256)"

definition pack_q :: "int \<Rightarrow> error + nat list" where
  "pack_q v =
     (if - (2 ^ 63) \<le> v \<and> v < 2 ^ 63 then Inr (le_bytes 8 (nat (v mod 2 ^ 64)))
      else Inl StructError)"

text \<open>The writes to the open file: an exception leaves what was written before it.\<close>

fun write_packed :: "int list \<Rightarrow> nat list \<Rightarrow> error option \<times> nat list" where
  "write_packed [] f = (None, f)"
| "write_packed (v # vs) f =
     (case pack_q v of Inl e \<Rightarrow> (Some e, f) | Inr b \<Rightarrow> write_packed vs (f @ b))"

text \<open>The order of the writes: \<open>for k in range(2): for y in range(6): for x in range(4)\<close>.\<close>

definition write_order :: "(nat \<times> nat \<times> nat) list" where
  "write_order = concat (map (\<lambda>k. concat (map (\<lambda>y. map (\<lambda>x. (k, y, x)) [0..<4]) [0..<6])) [0..<2])"

definition write_data_dat :: "iirfilterbox \<Rightarrow> error option \<times> iirfilterbox" where
  "write_data_dat s =
     (case bind_e (combined_filters s) coeff_list of
        Inl e \<Rightarrow> (Some e, s)
      | Inr cl \<Rightarrow>
          (case write_packed (map (\<lambda>(k, y, x). cl ! x ! y ! k) write_order) [] of
             (r, bytes) \<Rightarrow> (r, s\<lparr>data_dat := Some bytes\<rparr>)))"

text \<open>
  Modelled from the spec: \<open>DecFilter.set_samplerate\<close> (\<open>_dec_filter.py\<close>) is not among the
  sources. It is the sample-rate setting of the channel's decimation filter; the model
  records the factor it is given.
\<close>

definition set_samplerate :: "int \<Rightarrow> nat \<Rightarrow> iirfilterbox \<Rightarrow> error option \<times> iirfilterbox" where
  "set_samplerate ch factor s =
     (None, if ch = 1 then s\<lparr>decfilter1 := factor\<rparr> else s\<lparr>decfilter2 := factor\<rparr>)"

definition upload :: "transport \<Rightarrow> iirfilterbox \<Rightarrow> error option \<times> iirfilterbox" where
  "upload link =
     seq_all
       [set_mmap_access (link MmapEnable) True,
        send_file (link SendFile) CHR ''j'',
        set_mmap_access (link MmapDisable) False,
        (\<lambda>s. (None, s\<lparr>data_dat := None\<rparr>))]"

definition enable_channel :: "int \<Rightarrow> iirfilterbox \<Rightarrow> error option \<times> iirfilterbox" where
  "enable_channel ch =
     (if ch = 1 then seq_all [set_attr Output_en1 1, set_attr Input_en1 1]
      else seq_all [set_attr Output_en2 1, set_attr Input_en2 1])"

definition set_filter ::
  "transport \<Rightarrow> int \<Rightarrow> string \<Rightarrow> py_array option \<Rightarrow> iirfilterbox \<Rightarrow> error option \<times> iirfilterbox" where
  "set_filter link ch sample_rate filter_coefficients =
     seq_all
       [raising (check_parameter_valid_set ch [1, 2] ''filter channel''),
        raising (check_parameter_valid_set sample_rate [''high'', ''low''] ''filter sample rate''),
        set_samplerate ch (if sample_rate = ''high'' then 8 else 1024),
        store_filter ch filter_coefficients,
        write_data_dat,
        upload link,
        enable_channel ch,
        commit (link FinalCommit)]"

section \<open>Definitions used to state the properties\<close>

text \<open>
  The gain of each monitored signal, in the spec's words: a lookup keyed by the monitored
  signal, the ADC inputs corrected by a factor of 10 when the frontend attenuation is on.
\<close>

definition monitored_gain :: "scales \<Rightarrow> nat \<Rightarrow> real" where
  "monitored_gain base k =
     (if k = IIR_MON_ADC1 then sc_gain_adc1 base / (if sc_atten_ch1 base then 10 else 1)
      else if k = IIR_MON_ADC2 then sc_gain_adc2 base / (if sc_atten_ch2 base then 10 else 1)
      else if k = IIR_MON_IN1 \<or> k = IIR_MON_IN2 then 1 / 3750
      else if k = IIR_MON_OUT1 then sc_gain_dac1 base * 16
      else if k = IIR_MON_OUT2 then sc_gain_dac2 base * 16
      else 1)"


text \<open>A step that changes nothing but the registers of \<open>R\<close>.\<close>

definition touches_only :: "nat set \<Rightarrow> (iirfilterbox \<Rightarrow> error option \<times> iirfilterbox) \<Rightarrow> bool" where
  "touches_only R f \<longleftrightarrow>
     (\<forall>s. snd (f s) = s\<lparr>regs := regs (snd (f s))\<rparr>
        \<and> (\<forall>k. k \<notin> R \<longrightarrow> regs (snd (f s)) k = regs s k))"

text \<open>The registers of the control matrix and of the gains and offsets.\<close>

definition gain_regs :: "nat set" where
  "gain_regs =
     {REG_INPUTOFFSET_CH0, REG_INPUTOFFSET_CH1, REG_OUTPUTOFFSET_CH0, REG_OUTPUTOFFSET_CH1,
      REG_CH0_CH0GAIN, REG_CH0_CH1GAIN, REG_CH1_CH0GAIN, REG_CH1_CH1GAIN,
      REG_INPUTSCALE_CH0, REG_INPUTSCALE_CH1, REG_OUTPUTSCALE_CH0, REG_OUTPUTSCALE_CH1}"

text \<open>
  An instrument as \<open>set_defaults\<close> leaves it (inputs enabled, identity control matrix,
  unity gains, all-pass filters, no attenuation), with calibration gains of 1/3750 V per
  ADC bit and 1/30000 V per DAC bit. The theorems are tried on it.
\<close>

definition example_state :: iirfilterbox where
  "example_state =
     \<lparr>regs = (\<lambda>r. 0)(REG_ENABLE := 3),
      priv_matrixscale_ch1_ch1 = 1, priv_matrixscale_ch1_ch2 = 0,
      priv_matrixscale_ch2_ch1 = 0, priv_matrixscale_ch2_ch2 = 1,
      priv_input_scale1 = 1, priv_output_scale1 = 1,
      priv_input_offset1 = 0, priv_output_offset1 = 0,
      priv_input_scale2 = 1, priv_output_scale2 = 1,
      priv_input_offset2 = 0, priv_output_offset2 = 0,
      filter_ch1 = [[1, 1, 0, 0, 0, 0], [1, 1, 0, 0, 0, 0], [1, 1, 0, 0, 0, 0], [1, 1, 0, 0, 0, 0]],
      filter_ch2 = [[1, 1, 0, 0, 0, 0], [1, 1, 0, 0, 0, 0], [1, 1, 0, 0, 0, 0], [1, 1, 0, 0, 0, 0]],
      decfilter1 = 0, decfilter2 = 0,
      mmap_access = False,
      frontend_atten1 = False, frontend_atten2 = False,
      adc_gain1 = 1 / 3750, adc_gain2 = 1 / 3750,
      dac_gain1 = 1 / 30000, dac_gain2 = 1 / 30000,
      precision_mode = False, deci_gain = 1,
      data_dat = None, sent_files = []\<rparr>"

definition example_scales :: scales where
  "example_scales =
     \<lparr>sc_atten_ch1 = False, sc_atten_ch2 = False,
      sc_gain_adc1 = 1 / 3750, sc_gain_adc2 = 1 / 3750,
      sc_gain_dac1 = 1 / 30000, sc_gain_dac2 = 1 / 30000,
      sc_scale_ch1 = 0, sc_scale_ch2 = 0\<rparr>"

text \<open>The ranges the value check of \<open>set_filter\<close> enforces, both bounds included.\<close>

definition gain_ok :: "real \<Rightarrow> bool" where
  "gain_ok g \<longleftrightarrow> - 8000000 \<le> g \<and> g \<le> 8000000 - 1 / 2 ^ 24"

definition coeff_ok :: "real \<Rightarrow> bool" where
  "coeff_ok c \<longleftrightarrow> - 4 \<le> c \<and> c \<le> 4 - 1 / 2 ^ 45"

text \<open>
  The ranges in the spec's words: the gain in \<open>[-8e6, 8e6)\<close>, each coefficient of the four
  sections in \<open>[-4.0, 4.0)\<close>.
\<close>

definition claimed_ranges :: "py_array \<Rightarrow> bool" where
  "claimed_ranges fc \<longleftrightarrow>
     - 8000000 \<le> row fc 0 ! 0 \<and> row fc 0 ! 0 < 8000000
     \<and> (\<forall>m\<in>{1..<5}. \<forall>n<6. - 4 \<le> row fc m ! n \<and> row fc m ! n < 4)"

text \<open>The description every range check of the value check carries.\<close>

definition entry_desc :: string where
  "entry_desc = ''coefficient array entry m = 0, n = 0''"

text \<open>
  What the reshaping makes of one section \<open>[s, b0, b1, b2, a1, a2]\<close> when no other entry of
  the array is the same row object: \<open>s\<close> multiplied into \<open>b0, b1, b2\<close> and replaced by 1.
\<close>

definition scaled_section :: "real list \<Rightarrow> real list" where
  "scaled_section r = r[1 := r ! 1 * r ! 0, 2 := r ! 2 * r ! 0, 3 := r ! 3 * r ! 0, 0 := 1]"

text \<open>
  Reading a payload: the value of little-endian bytes, and the signed 64-bit integer that
  eight of them stand for.
\<close>

fun le_val :: "nat list \<Rightarrow> nat" where
  "le_val [] = 0"
| "le_val (b # bs) = b + 256 * le_val bs"

definition unpack_q :: "nat list \<Rightarrow> int" where
  "unpack_q bs = (let u = int (le_val bs) in if u < 2 ^ 63 then u else u - 2 ^ 64)"

text \<open>The \<open>i\<close>-th eight-byte integer of a payload.\<close>

definition payload_entry :: "nat list \<Rightarrow> nat \<Rightarrow> int" where
  "payload_entry bytes i = unpack_q (take 8 (drop (8 * i) bytes))"

text \<open>The fixed-point value of coefficient \<open>y\<close> of a section: 24 fractional bits in the
  gain slot, 45 in the others.\<close>

definition fixed_point :: "nat \<Rightarrow> real \<Rightarrow> int" where
  "fixed_point y v = (if y = 0 then py_round (2 ^ 24 * v) else py_round (2 ^ 45 * v))"

text \<open>Coefficient \<open>y\<close> of section \<open>x\<close> of channel \<open>k\<close> (0 for channel 1, 1 for channel 2).\<close>

definition stored_coeff :: "iirfilterbox \<Rightarrow> nat \<Rightarrow> nat \<Rightarrow> nat \<Rightarrow> real" where
  "stored_coeff s k x y = (if k = 0 then filter_ch1 s else filter_ch2 s) ! x ! y"

text \<open>
  The position of a coefficient in the payload in the spec's words: component-major, then
  channel, then row.
\<close>

definition claimed_position :: "nat \<Rightarrow> nat \<Rightarrow> nat \<Rightarrow> nat" where
  "claimed_position k y x = y * 8 + k * 4 + x"

text \<open>Example arrays. \<open>all_pass\<close> is the section \<open>set_defaults\<close> uses.\<close>

definition all_pass :: "real list" where
  "all_pass = [1, 1, 0, 0, 0, 0]"

text \<open>\<open>b = [1.0, 1.0, 0.0, 0.0, 0.0, 0.0]; [[2.0], b, b, b, b]\<close>: one row object, four times.\<close>

definition shared_rows :: py_array where
  "shared_rows = \<lparr>row_refs = [0, 1, 1, 1, 1], heap = (\<lambda>r. [])(0 := [2], 1 := all_pass)\<rparr>"

text \<open>Five row objects: gain 2, a first section with \<open>s = 1/2\<close>, three all-pass sections.\<close>

definition plain_rows :: py_array where
  "plain_rows =
     \<lparr>row_refs = [0, 1, 2, 3, 4],
      heap = (\<lambda>r. [])(0 := [2], 1 := [1 / 2, 1, 2, 1, 0, 0], 2 := all_pass, 3 := all_pass,
                         4 := all_pass)\<rparr>"

text \<open>An array with no rows.\<close>

definition no_rows :: py_array where
  "no_rows = \<lparr>row_refs = [], heap = (\<lambda>r. [])\<rparr>"

text \<open>A gain of \<open>8e6 - 2^-25\<close>, inside \<open>[-8e6, 8e6)\<close>, over four all-pass sections.\<close>

definition gain_near_limit :: py_array where
  "gain_near_limit =
     \<lparr>row_refs = [0, 1, 2, 3, 4],
      heap = (\<lambda>r. [])(0 := [8000000 - 1 / 2 ^ 25], 1 := all_pass, 2 := all_pass, 3 := all_pass,
                         4 := all_pass)\<rparr>"

text \<open>A fourth section with two entries only, under a gain of 1 and under a gain of \<open>1e7\<close>.\<close>

definition short_row :: py_array where
  "short_row =
     \<lparr>row_refs = [0, 1, 2, 3, 4],
      heap = (\<lambda>r. [])(0 := [1], 1 := all_pass, 2 := all_pass, 3 := all_pass, 4 := [1, 1])\<rparr>"

definition short_row_big_gain :: py_array where
  "short_row_big_gain =
     \<lparr>row_refs = [0, 1, 2, 3, 4],
      heap = (\<lambda>r. [])(0 := [10000000], 1 := all_pass, 2 := all_pass, 3 := all_pass,
                         4 := [1, 1])\<rparr>"

text \<open>A transport on which every call succeeds, and one on which only the upload fails.\<close>

definition link_up :: transport where
  "link_up c = True"

definition upload_fails :: transport where
  "upload_fails c = (c \<noteq> SendFile)"

text \<open>A step that never raises a validation error.\<close>

definition never_validation :: "(iirfilterbox \<Rightarrow> error option \<times> iirfilterbox) \<Rightarrow> bool" where
  "never_validation f \<longleftrightarrow> (\<forall>s. \<not> is_validation_error (fst (f s)))"

section \<open>Facts about the helpers\<close>

lemmas mon_defs = IIR_MON_NONE_def IIR_MON_ADC1_def IIR_MON_IN1_def IIR_MON_OUT1_def
  IIR_MON_ADC2_def IIR_MON_IN2_def IIR_MON_OUT2_def

lemmas reg_defs = REG_ENABLE_def REG_MONSELECT_def REG_INPUTOFFSET_CH0_def
  REG_INPUTOFFSET_CH1_def REG_OUTPUTOFFSET_CH0_def REG_OUTPUTOFFSET_CH1_def REG_CH0_CH0GAIN_def
  REG_CH0_CH1GAIN_def REG_CH1_CH0GAIN_def REG_CH1_CH1GAIN_def REG_INPUTSCALE_CH0_def
  REG_INPUTSCALE_CH1_def REG_OUTPUTSCALE_CH0_def REG_OUTPUTSCALE_CH1_def REG_SAMPLINGFREQ_def
  REG_FILT_RESET_def


lemma seq_all_Cons_None:
  "seq_all (f # fs) s = (None, s') \<Longrightarrow> \<exists>s1. f s = (None, s1) \<and> seq_all fs s1 = (None, s')"
  by (cases "f s") (auto split: option.splits)

subsection \<open>Register fields\<close>

lemma field_bits:
  fixes old v :: "32 word"
  shows "take_bit len (drop_bit off ((old AND NOT (push_bit off (mask len))) OR push_bit off v))
       = take_bit len (drop_bit off (push_bit off v))"
  by (rule bit_word_eqI) (auto simp add: bit_simps)

lemma drop_push:
  "off + len \<le> 32 \<Longrightarrow> take_bit len (drop_bit off (push_bit off (v :: 32 word))) = take_bit len v"
  by (rule bit_word_eqI) (auto simp add: bit_simps)

lemma field_read:
  fixes old v :: "32 word"
  assumes "off + len \<le> 32"
  shows "take_bit len (drop_bit off ((old AND NOT (push_bit off (mask len))) OR push_bit off v))
       = take_bit len v"
  using assms by (simp only: field_bits drop_push)

lemma uint_take_bit_of_int:
  assumes "len \<le> 32"
  shows "uint (take_bit len (word_of_int raw :: 32 word)) = take_bit len raw"
  using assms by (simp add: unsigned_take_bit_eq uint_word_of_int_eq min_def)

lemma unat_take_bit_of_int:
  assumes "0 \<le> raw" "raw < 2 ^ len" "len \<le> 32"
  shows "unat (take_bit len (word_of_int raw :: 32 word)) = nat raw"
proof -
  have "uint (take_bit len (word_of_int raw :: 32 word)) = raw"
    using assms by (simp add: uint_take_bit_of_int take_bit_int_eq_self)
  then show ?thesis
    by (metis nat_uint_eq)
qed


text \<open>A field that was encoded decodes to the value encoded.\<close>

lemma unsigned_roundtrip:
  assumes "0 \<le> raw" "raw < 2 ^ len" "off + len \<le> 32"
  shows "from_reg_unsigned off len
           ((old AND NOT (push_bit off (mask len))) OR push_bit off (word_of_int raw)) = nat raw"
  unfolding from_reg_unsigned_def using assms
  by (simp only: field_read) (simp add: unat_take_bit_of_int)


text \<open>Encoding one field keeps the bits of a field that does not overlap it.\<close>

lemma other_field:
  fixes old v :: "32 word"
  assumes "off + len \<le> off' \<or> off' + len' \<le> off" "off' + len' \<le> 32"
  shows "take_bit len' (drop_bit off'
           ((old AND NOT (push_bit off (mask len))) OR push_bit off (take_bit len v)))
       = take_bit len' (drop_bit off' old)"
  using assms by (intro bit_word_eqI) (auto simp add: bit_simps)

lemma other_field_unsigned:
  fixes old :: "32 word"
  assumes "off + len \<le> off' \<or> off' + len' \<le> off" "off' + len' \<le> 32"
    and "0 \<le> raw" "raw < 2 ^ len"
  shows "take_bit len' (drop_bit off'
           ((old AND NOT (push_bit off (mask len))) OR push_bit off (word_of_int raw)))
       = take_bit len' (drop_bit off' old)"
proof -
  have "take_bit len (word_of_int raw :: 32 word) = word_of_int raw"
    using assms(3,4) by (metis take_bit_int_eq_self take_bit_of_int)
  then show ?thesis
    using other_field [OF assms(1,2), of old "word_of_int raw"] by simp
qed

subsection \<open>Steps that only write registers\<close>

lemma touches_only_mono: "touches_only R f \<Longrightarrow> R \<subseteq> R' \<Longrightarrow> touches_only R' f"
  unfolding touches_only_def by blast

lemma touches_only_raising: "touches_only R (raising r)"
  by (simp add: touches_only_def raising_def)

lemma touches_only_set_attr: "touches_only {fst (iir_reg_handlers a)} (set_attr a v)"
  by (auto simp add: touches_only_def set_attr_def split: prod.splits sum.splits)

lemma touches_only_copy_attr: "touches_only {fst (iir_reg_handlers a)} (copy_attr a p)"
  using touches_only_set_attr by (simp add: touches_only_def copy_attr_def)

lemma touches_only_seq_all:
  assumes "\<And>f. f \<in> set fs \<Longrightarrow> touches_only R f"
  shows "touches_only R (seq_all fs)"
  using assms
proof (induction fs)
  case Nil
  show ?case by (simp add: touches_only_def)
next
  case (Cons f fs)
  have f: "touches_only R f" and rest: "touches_only R (seq_all fs)"
    using Cons by simp_all
  show ?case
    unfolding touches_only_def
  proof (intro allI)
    fix s
    obtain r s1 where fs1: "f s = (r, s1)" by (cases "f s")
    have s1: "s1 = s\<lparr>regs := regs s1\<rparr>" "\<And>k. k \<notin> R \<Longrightarrow> regs s1 k = regs s k"
      using f fs1 unfolding touches_only_def by (metis snd_conv)+
    show "snd (seq_all (f # fs) s) = s\<lparr>regs := regs (snd (seq_all (f # fs) s))\<rparr> \<and>
          (\<forall>k. k \<notin> R \<longrightarrow> regs (snd (seq_all (f # fs) s)) k = regs s k)"
    proof (cases r)
      case (Some e)
      then show ?thesis using fs1 s1 by simp
    next
      case None
      then have eq: "seq_all (f # fs) s = seq_all fs s1" using fs1 by simp
      have a: "snd (seq_all fs s1) = s1\<lparr>regs := regs (snd (seq_all fs s1))\<rparr>"
        and b: "\<And>k. k \<notin> R \<Longrightarrow> regs (snd (seq_all fs s1)) k = regs s1 k"
        using rest unfolding touches_only_def by blast+
      have "snd (seq_all fs s1) = s\<lparr>regs := regs (snd (seq_all fs s1))\<rparr>"
        using a s1(1) by (metis iirfilterbox.update_convs(1) iirfilterbox.surjective)
      then show ?thesis using b s1(2) eq by simp
    qed
  qed
qed

lemma touches_only_copy_gain:
  "fst (iir_reg_handlers a) \<in> gain_regs \<Longrightarrow> touches_only gain_regs (copy_attr a p)"
  by (rule touches_only_mono [OF touches_only_copy_attr]) simp

lemma touches_only_update_control_matrix_regs: "touches_only gain_regs update_control_matrix_regs"
  unfolding update_control_matrix_regs_def
  by (rule touches_only_seq_all) (auto intro!: touches_only_copy_gain, simp_all add: gain_regs_def)

lemma touches_only_update_gains_offsets_regs: "touches_only gain_regs update_gains_offsets_regs"
  unfolding update_gains_offsets_regs_def
  by (rule touches_only_seq_all) (auto intro!: touches_only_copy_gain, simp_all add: gain_regs_def)

lemma touches_only_update_dependent_regs: "touches_only gain_regs update_dependent_regs"
  unfolding update_dependent_regs_def
  by (rule touches_only_seq_all)
     (auto simp add: touches_only_update_control_matrix_regs touches_only_update_gains_offsets_regs)

lemma touches_only_commit: "touches_only gain_regs (commit ok)"
  unfolding commit_def
  by (rule touches_only_seq_all)
     (auto simp add: touches_only_update_dependent_regs touches_only_raising)

lemma commit_keeps:
  "snd (commit ok s) = s\<lparr>regs := regs (snd (commit ok s))\<rparr>"
  "k \<notin> gain_regs \<Longrightarrow> regs (snd (commit ok s)) k = regs s k"
  using touches_only_commit [of ok] unfolding touches_only_def by blast+

lemma monselect_not_gain: "REG_MONSELECT \<notin> gain_regs"
  by (simp add: gain_regs_def reg_defs)

section \<open>The control matrix\<close>

text \<open>
  C9. \<open>set_control_matrix(1, 25, 0)\<close> raises the validation error of the range check on
  the first scale (25 is outside [-20, 20]) and leaves the instrument as it was, the four
  stored matrix-scale values included. This holds whatever the state and the transport.
\<close>

theorem set_control_matrix_rejects_25:
  "set_control_matrix link 1 25 0 s = (Some (ValidationError ''control matrix scale (ch1)''), s)
   \<and> priv_matrixscale_ch1_ch1 (snd (set_control_matrix link 1 25 0 s)) = priv_matrixscale_ch1_ch1 s
   \<and> priv_matrixscale_ch1_ch2 (snd (set_control_matrix link 1 25 0 s)) = priv_matrixscale_ch1_ch2 s
   \<and> priv_matrixscale_ch2_ch1 (snd (set_control_matrix link 1 25 0 s)) = priv_matrixscale_ch2_ch1 s
   \<and> priv_matrixscale_ch2_ch2 (snd (set_control_matrix link 1 25 0 s)) = priv_matrixscale_ch2_ch2 s"
  by (simp add: set_control_matrix_def needs_commit_def set_control_matrix_body_def raising_def
      check_parameter_valid_set_def check_parameter_valid_range_def)

section \<open>Scales and frame decoding: properties\<close>

lemma map_of_gains:
  "map_of (monitor_source_gains a b c d) k =
     (if k = 0 then Some 1 else if k = 1 then Some a else if k = 2 then Some (1 / 3750)
      else if k = 3 then Some (c * 16) else if k = 4 then Some b
      else if k = 5 then Some (1 / 3750) else if k = 6 then Some (d * 16) else None)"
  by (simp add: monitor_source_gains_def mon_defs ADC_DEFAULT_CALIBRATION_def)

lemma lookup_gain:
  "map_of (monitor_source_gains (sc_gain_adc1 base / (if sc_atten_ch1 base then 10 else 1))
             (sc_gain_adc2 base / (if sc_atten_ch2 base then 10 else 1))
             (sc_gain_dac1 base) (sc_gain_dac2 base)) k =
     (if 7 \<le> k then None else Some (monitored_gain base k))"
proof -
  consider "k = 0" | "k = 1" | "k = 2" | "k = 3" | "k = 4" | "k = 5" | "k = 6" | "7 \<le> k"
    by linarith
  then show ?thesis
    by cases (simp_all add: map_of_gains monitored_gain_def mon_defs)
qed

text \<open>
  C8. For every monitor-source selection \<open>calculate_scales\<close> looks the gain of each
  monitor channel up in the table keyed by the monitored signal (for an ADC input the ADC
  gain divided by 10 when the attenuation is on, for a filter input 1/3750, for a filter
  output the DAC gain times 16, for no signal 1), and in precision mode divides both
  channel scales by the decimation gain. A source number outside the table raises
  KeyError, a decimation gain of zero ZeroDivisionError.
\<close>

theorem calculate_scales_by_source:
  "calculate_scales base s =
     (if 7 \<le> mon1_source s \<or> 7 \<le> mon2_source s then Inl KeyError
      else if precision_mode s \<and> deci_gain s = 0 then Inl ZeroDivisionError
      else Inr (base\<lparr>sc_scale_ch1 := monitored_gain base (mon1_source s)
                                        / (if precision_mode s then deci_gain s else 1),
                     sc_scale_ch2 := monitored_gain base (mon2_source s)
                                        / (if precision_mode s then deci_gain s else 1)\<rparr>))"
  unfolding calculate_scales_def Let_def lookup_gain by simp

lemma calculate_scales_cases:
  "calculate_scales base s =
     (if 7 \<le> mon1_source s \<or> 7 \<le> mon2_source s then Inl KeyError
      else if precision_mode s \<and> deci_gain s = 0 then Inl ZeroDivisionError
      else Inr (base\<lparr>sc_scale_ch1 := monitored_gain base (mon1_source s)
                                        / (if precision_mode s then deci_gain s else 1),
                     sc_scale_ch2 := monitored_gain base (mon2_source s)
                                        / (if precision_mode s then deci_gain s else 1)\<rparr>))"
  unfolding calculate_scales_def Let_def lookup_gain by simp

lemma set_monitor_body_a_out1:
  "set_monitor_body ''a'' ''out1'' s =
     (None, s\<lparr>regs := (regs s)(REG_MONSELECT :=
        (regs s REG_MONSELECT AND NOT (push_bit 0 (mask 3))) OR push_bit 0 (word_of_int 3))\<rparr>)"
  by (simp add: set_monitor_body_def raising_def check_parameter_valid_set_def sources_def
      set_attr_def to_reg_unsigned_def no_xform_def IIR_MON_OUT1_def py_round_def)

text \<open>
  \<open>set_monitor('a', 'out1')\<close> selects source 3 for monitor channel A and leaves the
  selection of channel B and the acquisition mode as they were, whether or not its commit
  succeeds.
\<close>

lemma set_monitor_a_out1:
  "mon1_source (snd (set_monitor link ''a'' ''out1'' s)) = IIR_MON_OUT1"
  "mon2_source (snd (set_monitor link ''a'' ''out1'' s)) = mon2_source s"
  "precision_mode (snd (set_monitor link ''a'' ''out1'' s)) = precision_mode s"
  "deci_gain (snd (set_monitor link ''a'' ''out1'' s)) = deci_gain s"
proof -
  let ?w = "(regs s REG_MONSELECT AND NOT (push_bit 0 (mask 3))) OR push_bit 0 (word_of_int 3)"
  let ?s1 = "s\<lparr>regs := (regs s)(REG_MONSELECT := ?w)\<rparr>"
  have eq: "set_monitor link ''a'' ''out1'' s = commit (link SetterCommit) ?s1"
    by (simp add: set_monitor_def needs_commit_def set_monitor_body_a_out1
        split: prod.splits option.splits)
  have r: "regs (snd (commit (link SetterCommit) ?s1)) REG_MONSELECT = ?w"
    using commit_keeps(2) [OF monselect_not_gain, of "link SetterCommit" ?s1] by simp
  have k: "snd (commit (link SetterCommit) ?s1)
           = ?s1\<lparr>regs := regs (snd (commit (link SetterCommit) ?s1))\<rparr>"
    by (rule commit_keeps(1))
  have "from_reg_unsigned 0 3 ?w = nat 3"
    by (rule unsigned_roundtrip) simp_all
  then show "mon1_source (snd (set_monitor link ''a'' ''out1'' s)) = IIR_MON_OUT1"
    unfolding eq mon1_source_def r IIR_MON_OUT1_def by simp
  have "take_bit 3 (drop_bit 3 ?w) = take_bit 3 (drop_bit 3 (regs s REG_MONSELECT))"
    by (rule other_field_unsigned) simp_all
  then show "mon2_source (snd (set_monitor link ''a'' ''out1'' s)) = mon2_source s"
    unfolding eq mon2_source_def r from_reg_unsigned_def by (simp only:)
  show "precision_mode (snd (set_monitor link ''a'' ''out1'' s)) = precision_mode s"
    unfolding eq by (subst k) simp
  show "deci_gain (snd (set_monitor link ''a'' ''out1'' s)) = deci_gain s"
    unfolding eq by (subst k) simp
qed

text \<open>
  C3. After \<open>set_monitor('a', 'out1')\<close>, with precision mode off (and a valid selection on
  monitor channel B), \<open>calculate_scales\<close> returns, its \<open>scale_ch1\<close> is \<open>gain_dac1 * 2^4\<close>,
  and a frame decoded with these scales has \<open>channel_a[i] = raw[i] * gain_dac1 * 16\<close>.
  The frontend impedance (\<open>fiftyr\<close>) is read nowhere on this path: the result is the same
  for either setting.
\<close>

theorem decode_out1_scale:
  assumes "\<not> precision_mode s0" and "mon2_source s0 < 7"
  shows "\<exists>sc. calculate_scales base (snd (set_monitor link ''a'' ''out1'' s0)) = Inr sc
            \<and> sc_scale_ch1 sc = sc_gain_dac1 base * 2 ^ 4
            \<and> channel_a \<lparr>raw_ch1 = raw, raw_ch2 = raw', frame_scales = sc\<rparr>
                = map (\<lambda>r. of_int r * sc_gain_dac1 base * 16) raw"
  using assms
  by (simp add: calculate_scales_cases set_monitor_a_out1 monitored_gain_def mon_defs channel_a_def)

theorem decode_out1_scale_witness:
  "\<not> precision_mode example_state \<and> mon2_source example_state < 7 \<and>
   (\<exists>sc. calculate_scales example_scales
              (snd (set_monitor link_up ''a'' ''out1'' example_state)) = Inr sc
          \<and> sc_scale_ch1 sc = 1 / 1875
          \<and> channel_a \<lparr>raw_ch1 = [3, - 6], raw_ch2 = [], frame_scales = sc\<rparr>
              = [1 / 625, - 2 / 625])"
proof -
  have 1: "\<not> precision_mode example_state"
    by (simp add: example_state_def)
  have 2: "mon2_source example_state < 7"
    by (simp add: example_state_def mon2_source_def from_reg_unsigned_def reg_defs)
  from decode_out1_scale [OF 1 2, of example_scales link_up "[3, - 6]" "[]"] 1 2
  show ?thesis by (simp add: example_scales_def)
qed

section \<open>The control-matrix registers at commit\<close>







section \<open>\<open>set_filter\<close>: facts about its steps\<close>

subsection \<open>Validation of a coefficient array\<close>

lemma first_error_None_iff: "first_error rs = None \<longleftrightarrow> (\<forall>r\<in>set rs. r = None)"
  by (induction rs rule: first_error.induct) auto

lemma first_error_Some_mem: "first_error rs = Some e \<Longrightarrow> Some e \<in> set rs"
  by (induction rs rule: first_error.induct) auto

lemma upt_4: "[0..<4] = [0, 1, 2, 3]"
  by (simp add: upt_rec)

lemma upt_1_5: "[1..<5] = [1, 2, 3, 4]"
  by (simp add: upt_rec)

lemma upt_6: "[0..<6] = [0, 1, 2, 3, 4, 5]"
  by (simp add: upt_rec)

lemma check_dimensions_None_iff:
  "check_dimensions fc = None \<longleftrightarrow>
     length (row_refs fc) = 5 \<and> length (row fc 0) = 1 \<and> length (row fc 1) = 6
     \<and> length (row fc 2) = 6 \<and> length (row fc 3) = 6"
  by (auto simp add: check_dimensions_def first_error_None_iff upt_4 check_row_dimension_def
      get_row_def check_parameter_valid_set_def split: sum.splits if_splits)

lemma check_entry_eq:
  "check_entry fc m n lo hi =
     (if m < length (row_refs fc) \<and> n < length (row fc m)
      then (if lo \<le> row fc m ! n \<and> row fc m ! n \<le> hi then None
            else Some (ValidationError entry_desc))
      else Some IndexError)"
  by (simp add: check_entry_def get_entry_def get_row_def bind_e_def py_index_def
      check_parameter_valid_range_def entry_desc_def)

lemma check_gain_None_iff:
  "0 < length (row_refs fc) \<Longrightarrow> 0 < length (row fc 0) \<Longrightarrow>
   check_entry fc 0 0 (- 8000000) (8000000 - 1 / 2 ^ 24) = None \<longleftrightarrow> gain_ok (row fc 0 ! 0)"
  unfolding check_entry_eq gain_ok_def by simp

lemma check_coeff_None_iff:
  "m < length (row_refs fc) \<Longrightarrow>
   check_entry fc m n (- 4) (4 - 1 / 2 ^ 45) = None
     \<longleftrightarrow> n < length (row fc m) \<and> coeff_ok (row fc m ! n)"
  unfolding check_entry_eq coeff_ok_def by simp

lemma check_values_None_iff:
  assumes "length (row_refs fc) = 5" "length (row fc 0) = 1"
  shows "check_values fc = None \<longleftrightarrow>
           gain_ok (row fc 0 ! 0)
           \<and> (\<forall>m\<in>{1..<5}. 6 \<le> length (row fc m) \<and> (\<forall>n<6. coeff_ok (row fc m ! n)))"
proof -
  have "check_values fc = None \<longleftrightarrow>
          check_entry fc 0 0 (- 8000000) (8000000 - 1 / 2 ^ 24) = None
          \<and> (\<forall>m\<in>{1..<5}. \<forall>n\<in>{0..<6}. check_entry fc m n (- 4) (4 - 1 / 2 ^ 45) = None)"
    unfolding check_values_def first_error_None_iff by (auto simp del: upt_Suc)
  also have "\<dots> \<longleftrightarrow> gain_ok (row fc 0 ! 0)
           \<and> (\<forall>m\<in>{1..<5}. \<forall>n\<in>{0..<6}. n < length (row fc m) \<and> coeff_ok (row fc m ! n))"
  proof -
    have g: "check_entry fc 0 0 (- 8000000) (8000000 - 1 / 2 ^ 24) = None \<longleftrightarrow> gain_ok (row fc 0 ! 0)"
      by (rule check_gain_None_iff) (use assms in simp_all)
    have c: "check_entry fc m n (- 4) (4 - 1 / 2 ^ 45) = None
              \<longleftrightarrow> n < length (row fc m) \<and> coeff_ok (row fc m ! n)" if "m \<in> {1..<5}" for m n
      by (rule check_coeff_None_iff) (use assms that in simp)
    show ?thesis
      unfolding g using c by blast
  qed
  also have "\<dots> \<longleftrightarrow> gain_ok (row fc 0 ! 0)
           \<and> (\<forall>m\<in>{1..<5}. 6 \<le> length (row fc m) \<and> (\<forall>n<6. coeff_ok (row fc m ! n)))"
  proof -
    have "(\<forall>n\<in>{0..<6}. n < length r \<and> coeff_ok (r ! n))
            \<longleftrightarrow> 6 \<le> length r \<and> (\<forall>n<6. coeff_ok (r ! n))" for r :: "real list"
    proof
      assume a: "\<forall>n\<in>{0..<6}. n < length r \<and> coeff_ok (r ! n)"
      have "(5::nat) \<in> {0..<6}" by simp
      with a have "5 < length r" by blast
      then have len: "6 \<le> length r" by simp
      have "coeff_ok (r ! n)" if "n < 6" for n
        using a that by simp
      with len show "6 \<le> length r \<and> (\<forall>n<6. coeff_ok (r ! n))"
        by blast
    next
      assume "6 \<le> length r \<and> (\<forall>n<6. coeff_ok (r ! n))"
      then show "\<forall>n\<in>{0..<6}. n < length r \<and> coeff_ok (r ! n)"
        by simp
    qed
    then show ?thesis by simp
  qed
  finally show ?thesis .
qed

lemma upt_Suc0_5: "[Suc 0..<5] = [1, 2, 3, 4]"
  by (simp add: upt_rec)

lemma ball_1_5: "(\<forall>m\<in>{1..<5}. P m) \<longleftrightarrow> P 1 \<and> P 2 \<and> P 3 \<and> P (4::nat)"
proof -
  have "{1..<5} = set [1, 2, 3, 4::nat]"
    unfolding atLeastLessThan_upt upt_1_5 ..
  then show ?thesis by simp
qed

lemma all_less_6: "(\<forall>n<6. P n) \<longleftrightarrow> P 0 \<and> P 1 \<and> P 2 \<and> P 3 \<and> P 4 \<and> P (5::nat)"
proof -
  have "(\<forall>n<6. P n) \<longleftrightarrow> (\<forall>n\<in>set [0..<6]. P n)"
    unfolding set_upt by auto
  also have "\<dots> \<longleftrightarrow> P 0 \<and> P 1 \<and> P 2 \<and> P 3 \<and> P 4 \<and> P (5::nat)"
    unfolding upt_6 by simp
  finally show ?thesis .
qed

subsection \<open>Bytes, chunks and loops that may raise\<close>

lemma length_le_bytes: "length (le_bytes n v) = n"
  by (induction n arbitrary: v) simp_all

lemma le_val_le_bytes: "le_val (le_bytes n v) = v mod 256 ^ n"
proof (induction n arbitrary: v)
  case 0
  show ?case by simp
next
  case (Suc n)
  have "v mod (256 * 256 ^ n) = 256 * (v div 256 mod 256 ^ n) + v mod 256"
    by (rule mod_mult2_eq)
  then show ?case
    using Suc by simp
qed

lemma unpack_pack_q:
  assumes "pack_q v = Inr bs"
  shows "unpack_q bs = v" "length bs = 8"
proof -
  have range: "- (2 ^ 63) \<le> v" "v < 2 ^ 63" and bs: "bs = le_bytes 8 (nat (v mod 2 ^ 64))"
    using assms by (auto simp add: pack_q_def split: if_splits)
  have "nat (v mod 2 ^ 64) < 2 ^ 64"
    by (simp add: nat_less_iff)
  then have "le_val bs = nat (v mod 2 ^ 64)"
    unfolding bs le_val_le_bytes by simp
  then have u: "int (le_val bs) = v mod 2 ^ 64"
    by simp
  show "unpack_q bs = v"
  proof (cases "0 \<le> v")
    case True
    then have "v mod 2 ^ 64 = v"
      using range by simp
    then show ?thesis
      using range by (simp add: unpack_q_def u)
  next
    case False
    then have "(v + 2 ^ 64) mod 2 ^ 64 = v + 2 ^ 64"
      using range by (intro mod_pos_pos_trivial) simp_all
    moreover have "(v + 2 ^ 64) mod 2 ^ 64 = v mod 2 ^ 64"
      by simp
    ultimately have "v mod 2 ^ 64 = v + 2 ^ 64"
      by simp
    then show ?thesis
      using range False by (simp add: unpack_q_def u)
  qed
  show "length bs = 8"
    by (simp add: bs length_le_bytes)
qed

lemma mapM_e_Inr:
  "mapM_e f xs = Inr ys \<Longrightarrow> length ys = length xs \<and> (\<forall>i<length xs. f (xs ! i) = Inr (ys ! i))"
proof (induction xs arbitrary: ys)
  case Nil
  then show ?case by simp
next
  case (Cons x xs)
  from Cons.prems obtain y ys' where y: "f x = Inr y" and ys': "mapM_e f xs = Inr ys'" and eq: "ys = y # ys'"
    by (auto split: sum.splits)
  from Cons.IH [OF ys'] show ?case
    using y eq by (auto simp add: nth_Cons split: nat.splits)
qed

lemma mapM_e_error:
  "mapM_e f xs = Inl e \<Longrightarrow> \<exists>x\<in>set xs. f x = Inl e"
  by (induction xs) (auto split: sum.splits)

lemma write_packed_None:
  "write_packed vs f = (None, out) \<Longrightarrow>
     \<exists>chunks. mapM_e pack_q vs = Inr chunks \<and> out = f @ concat chunks"
proof (induction vs arbitrary: f)
  case Nil
  then show ?case by simp
next
  case (Cons v vs)
  then show ?case
    by (cases "pack_q v") (fastforce split: sum.splits)+
qed

lemma write_packed_error:
  "write_packed vs f = (Some e, out) \<Longrightarrow> e = StructError"
proof (induction vs arbitrary: f)
  case Nil
  then show ?case by simp
next
  case (Cons v vs)
  then show ?case
    by (cases "pack_q v") (auto simp add: pack_q_def split: if_splits)
qed

lemma length_concat_chunks:
  "(\<And>c. c \<in> set cs \<Longrightarrow> length c = m) \<Longrightarrow> length (concat cs) = length cs * m"
  by (induction cs) simp_all

lemma chunk_of_concat:
  "(\<And>c. c \<in> set cs \<Longrightarrow> length c = m) \<Longrightarrow> i < length cs \<Longrightarrow>
   take m (drop (m * i) (concat cs)) = cs ! i"
proof (induction cs arbitrary: i)
  case Nil
  then show ?case by simp
next
  case (Cons c cs)
  show ?case
  proof (cases i)
    case 0
    then show ?thesis using Cons.prems by simp
  next
    case (Suc j)
    have "length c = m" using Cons.prems by simp
    then have "drop (m * i) (concat (c # cs)) = drop (m * j) (concat cs)"
      unfolding Suc by simp
    moreover have "take m (drop (m * j) (concat cs)) = cs ! j"
      using Cons.prems Suc by (intro Cons.IH) simp_all
    ultimately show ?thesis
      using Suc by simp
  qed
qed

lemma nth_concat_map_upt:
  assumes "\<And>i. i < n \<Longrightarrow> length (f i) = m" "i < n" "j < m"
  shows "concat (map f [0..<n]) ! (i * m + j) = f i ! j"
  using assms
proof (induction n)
  case 0
  then show ?case by simp
next
  case (Suc n)
  have "length c = m" if "c \<in> set (map f [0..<n])" for c
    using that Suc.prems(1) by auto
  then have "length (concat (map f [0..<n])) = length (map f [0..<n]) * m"
    by (rule length_concat_chunks)
  then have len: "length (concat (map f [0..<n])) = n * m"
    by simp
  show ?case
  proof (cases "i < n")
    case True
    have "i * m + j < Suc i * m"
      using Suc.prems(3) by simp
    also have "\<dots> \<le> n * m"
      using True by (intro mult_le_mono1) simp
    finally have "i * m + j < n * m" .
    then show ?thesis
      using Suc True len by (simp add: nth_append)
  next
    case False
    then have "i = n" using Suc.prems(2) by simp
    then show ?thesis
      using len by (simp add: nth_append)
  qed
qed

subsection \<open>The payload\<close>

lemma length_write_order: "length write_order = 48"
  by (simp add: write_order_def upt_rec)

lemma write_order_nth:
  assumes "k < 2" "y < 6" "x < 4"
  shows "write_order ! (k * 24 + y * 4 + x) = (k, y, x)"
proof -
  let ?inner = "\<lambda>k. concat (map (\<lambda>y. map (\<lambda>x. (k, y, x)) [0..<4]) [0..<6])"
  have inner_nth: "?inner k ! (y * 4 + x) = (k, y, x)" for k
    using assms by (subst nth_concat_map_upt) simp_all
  have inner_len: "length (?inner k) = 24" for k
    by (simp add: upt_rec)
  have "y * 4 + x < 24"
    using assms by simp
  then have "concat (map ?inner [0..<2]) ! (k * 24 + (y * 4 + x)) = ?inner k ! (y * 4 + x)"
    using assms(1) inner_len by (intro nth_concat_map_upt) simp_all
  then show ?thesis
    unfolding write_order_def by (simp add: inner_nth add.assoc)
qed

lemma combined_filters_Inr:
  assumes "combined_filters s = Inr fcs"
  shows "length fcs = 4"
    and "x < 4 \<Longrightarrow> x < length (filter_ch1 s) \<and> x < length (filter_ch2 s)
           \<and> fcs ! x = filter_ch1 s ! x @ filter_ch2 s ! x"
proof -
  from mapM_e_Inr [OF assms [unfolded combined_filters_def]]
  have len: "length fcs = 4"
    and each: "\<And>i. i < 4 \<Longrightarrow>
       bind_e (py_index (filter_ch1 s) i)
         (\<lambda>r1. bind_e (py_index (filter_ch2 s) i) (\<lambda>r2. Inr (r1 @ r2))) = Inr (fcs ! i)"
    by simp_all
  show "length fcs = 4" by (rule len)
  show "x < length (filter_ch1 s) \<and> x < length (filter_ch2 s)
           \<and> fcs ! x = filter_ch1 s ! x @ filter_ch2 s ! x" if "x < 4"
    using each [OF that] by (auto simp add: bind_e_def py_index_def split: if_splits)
qed

lemma coeff_list_Inr:
  assumes "coeff_list fcs = Inr cl" "length fcs = 4" "k < 2" "y < 6" "x < 4"
  shows "y + k * 6 < length (fcs ! x) \<and> cl ! x ! y ! k = fixed_point y (fcs ! x ! (y + k * 6))"
proof -
  from mapM_e_Inr [OF assms(1) [unfolded coeff_list_def]] assms(5)
  have "mapM_e (\<lambda>y. mapM_e (\<lambda>k. coeff_entry fcs x y k) [0..<2]) [0..<6] = Inr (cl ! x)"
    by simp
  from mapM_e_Inr [OF this] assms(4)
  have "mapM_e (\<lambda>k. coeff_entry fcs x y k) [0..<2] = Inr (cl ! x ! y)"
    by simp
  from mapM_e_Inr [OF this] assms(3)
  have "coeff_entry fcs x y k = Inr (cl ! x ! y ! k)"
    by simp
  then show ?thesis
    using assms(2,5)
    by (auto simp add: coeff_entry_def bind_e_def py_index_def fixed_point_def IIR_COEFFWIDTH_def
        split: if_splits)
qed

lemma write_data_dat_None:
  assumes "write_data_dat s = (None, s')"
  shows "\<exists>bytes. s' = s\<lparr>data_dat := Some bytes\<rparr> \<and> length bytes = 384
           \<and> (\<forall>k<2. \<forall>y<6. \<forall>x<4.
                 x < length (filter_ch1 s) \<and> x < length (filter_ch2 s)
                 \<and> y + k * 6 < length (filter_ch1 s ! x @ filter_ch2 s ! x)
                 \<and> unpack_q (take 8 (drop (8 * (k * 24 + y * 4 + x)) bytes))
                     = fixed_point y ((filter_ch1 s ! x @ filter_ch2 s ! x) ! (y + k * 6)))"
proof -
  let ?g = "\<lambda>cl. \<lambda>(k, y, x). (cl :: int list list list) ! x ! y ! k"
  from assms obtain cl bytes where cl: "bind_e (combined_filters s) coeff_list = Inr cl"
    and wp: "write_packed (map (?g cl) write_order) [] = (None, bytes)"
    and s': "s' = s\<lparr>data_dat := Some bytes\<rparr>"
    by (auto simp add: write_data_dat_def split: sum.splits prod.splits)
  from cl obtain fcs where fcs: "combined_filters s = Inr fcs" and cl': "coeff_list fcs = Inr cl"
    by (auto simp add: bind_e_def split: sum.splits)
  from write_packed_None [OF wp] obtain chunks
    where chunks: "mapM_e pack_q (map (?g cl) write_order) = Inr chunks" and bytes: "bytes = concat chunks"
    by auto
  from mapM_e_Inr [OF chunks]
  have nchunks: "length chunks = 48"
    and packed: "\<And>i. i < 48 \<Longrightarrow> pack_q (?g cl (write_order ! i)) = Inr (chunks ! i)"
    by (simp_all add: length_write_order)
  have len8: "length c = 8" if "c \<in> set chunks" for c
  proof -
    from that obtain i where "i < 48" "c = chunks ! i"
      using nchunks by (metis in_set_conv_nth)
    then show ?thesis
      using unpack_pack_q(2) [OF packed] by simp
  qed
  have "length bytes = 384"
    unfolding bytes using length_concat_chunks [of chunks 8] len8 nchunks by simp
  moreover have "x < length (filter_ch1 s) \<and> x < length (filter_ch2 s)
                 \<and> y + k * 6 < length (filter_ch1 s ! x @ filter_ch2 s ! x)
                 \<and> unpack_q (take 8 (drop (8 * (k * 24 + y * 4 + x)) bytes))
                     = fixed_point y ((filter_ch1 s ! x @ filter_ch2 s ! x) ! (y + k * 6))"
    if "k < 2" "y < 6" "x < 4" for k y x
  proof -
    have i: "k * 24 + y * 4 + x < 48"
      using that by simp
    have "take 8 (drop (8 * (k * 24 + y * 4 + x)) bytes) = chunks ! (k * 24 + y * 4 + x)"
      unfolding bytes using len8 i nchunks by (intro chunk_of_concat) simp_all
    moreover have "unpack_q (chunks ! (k * 24 + y * 4 + x)) = cl ! x ! y ! k"
      using unpack_pack_q(1) [OF packed [OF i]] by (simp add: write_order_nth [OF that])
    moreover have "y + k * 6 < length (fcs ! x) \<and> cl ! x ! y ! k = fixed_point y (fcs ! x ! (y + k * 6))"
      using cl' combined_filters_Inr(1) [OF fcs] that by (rule coeff_list_Inr)
    ultimately show ?thesis
      using combined_filters_Inr(2) [OF fcs that(3)] by simp
  qed
  ultimately show ?thesis
    using s' by blast
qed

subsection \<open>The steps of \<open>set_filter\<close>\<close>

lemma seq_all_None_iff:
  "seq_all (f # fs) s = (None, s') \<longleftrightarrow> (\<exists>s1. f s = (None, s1) \<and> seq_all fs s1 = (None, s'))"
  by (cases "f s") (auto split: option.splits)

lemma seq_all_Nil_None_iff: "seq_all [] s = (None, s') \<longleftrightarrow> s' = s"
  by auto

lemma touches_only_fields:
  assumes "touches_only R f" "f s = (r, s')"
  shows "filter_ch1 s' = filter_ch1 s" "filter_ch2 s' = filter_ch2 s"
    "sent_files s' = sent_files s" "mmap_access s' = mmap_access s"
    "data_dat s' = data_dat s" "decfilter1 s' = decfilter1 s" "decfilter2 s' = decfilter2 s"
proof -
  have e: "s' = s\<lparr>regs := regs s'\<rparr>"
    using assms unfolding touches_only_def by (metis snd_conv)
  show "filter_ch1 s' = filter_ch1 s" by (subst e) simp
  show "filter_ch2 s' = filter_ch2 s" by (subst e) simp
  show "sent_files s' = sent_files s" by (subst e) simp
  show "mmap_access s' = mmap_access s" by (subst e) simp
  show "data_dat s' = data_dat s" by (subst e) simp
  show "decfilter1 s' = decfilter1 s" by (subst e) simp
  show "decfilter2 s' = decfilter2 s" by (subst e) simp
qed

lemma touches_only_enable_channel: "touches_only {REG_ENABLE} (enable_channel ch)"
  unfolding enable_channel_def
  by (auto intro!: touches_only_seq_all touches_only_mono [OF touches_only_set_attr])

lemma set_mmap_access_result:
  assumes "set_mmap_access ok b s = (r, s')"
  shows "mmap_access s' = b" "filter_ch1 s' = filter_ch1 s" "filter_ch2 s' = filter_ch2 s"
    "sent_files s' = sent_files s" "data_dat s' = data_dat s"
    "decfilter1 s' = decfilter1 s" "decfilter2 s' = decfilter2 s"
proof -
  have c: "commit ok (s\<lparr>mmap_access := b\<rparr>) = (r, s')"
    using assms by (simp add: set_mmap_access_def split: prod.splits option.splits)
  note k = touches_only_fields [OF touches_only_commit c]
  show "mmap_access s' = b" using k(4) by simp
  show "filter_ch1 s' = filter_ch1 s" using k(1) by simp
  show "filter_ch2 s' = filter_ch2 s" using k(2) by simp
  show "sent_files s' = sent_files s" using k(3) by simp
  show "data_dat s' = data_dat s" using k(5) by simp
  show "decfilter1 s' = decfilter1 s" using k(6) by simp
  show "decfilter2 s' = decfilter2 s" using k(7) by simp
qed

lemma upload_None:
  assumes "upload link s = (None, s')"
  shows "\<exists>bytes. data_dat s = Some bytes \<and> sent_files s' = sent_files s @ [(CHR ''j'', bytes)]"
    and "filter_ch1 s' = filter_ch1 s" "filter_ch2 s' = filter_ch2 s" "mmap_access s' = False"
    and "data_dat s' = None"
proof -
  from assms obtain s1 s2 s3 where
    1: "set_mmap_access (link MmapEnable) True s = (None, s1)" and
    2: "send_file (link SendFile) CHR ''j'' s1 = (None, s2)" and
    3: "set_mmap_access (link MmapDisable) False s2 = (None, s3)" and
    4: "s' = s3\<lparr>data_dat := None\<rparr>"
    unfolding upload_def seq_all_None_iff seq_all_Nil_None_iff
    by auto
  note a = set_mmap_access_result [OF 1]
  note c = set_mmap_access_result [OF 3]
  from 2 obtain bytes where b: "data_dat s1 = Some bytes" "s2 = s1\<lparr>sent_files := sent_files s1 @ [(CHR ''j'', bytes)]\<rparr>"
    by (auto simp add: send_file_def split: option.splits if_splits)
  show "\<exists>bytes. data_dat s = Some bytes \<and> sent_files s' = sent_files s @ [(CHR ''j'', bytes)]"
    using a b c 4 by simp
  show "filter_ch1 s' = filter_ch1 s" using a b c 4 by simp
  show "filter_ch2 s' = filter_ch2 s" using a b c 4 by simp
  show "mmap_access s' = False" using c 4 by simp
  show "data_dat s' = None" using 4 by simp
qed

lemma store_filter_frame:
  assumes "store_filter ch fco s = (r, s')"
  shows "sent_files s' = sent_files s" "data_dat s' = data_dat s" "mmap_access s' = mmap_access s"
    "decfilter1 s' = decfilter1 s" "decfilter2 s' = decfilter2 s" "regs s' = regs s"
  using assms by (auto simp add: store_filter_def split: option.splits sum.splits if_splits)

lemma set_filter_None:
  assumes "set_filter link ch rate fco s = (None, s')"
  shows "\<exists>s2 s3 s4. store_filter ch fco (snd (set_samplerate ch (if rate = ''high'' then 8 else 1024) s)) = (None, s2)
           \<and> write_data_dat s2 = (None, s3) \<and> upload link s3 = (None, s4)
           \<and> filter_ch1 s' = filter_ch1 s2 \<and> filter_ch2 s' = filter_ch2 s2
           \<and> sent_files s' = sent_files s4 \<and> sent_files s2 = sent_files s
           \<and> mmap_access s' = False"
proof -
  from assms obtain s1 s2 s3 s4 s5 where
    1: "set_samplerate ch (if rate = ''high'' then 8 else 1024) s = (None, s1)" and
    2: "store_filter ch fco s1 = (None, s2)" and
    3: "write_data_dat s2 = (None, s3)" and
    4: "upload link s3 = (None, s4)" and
    5: "enable_channel ch s4 = (None, s5)" and
    6: "commit (link FinalCommit) s5 = (None, s')"
    unfolding set_filter_def seq_all_None_iff seq_all_Nil_None_iff
    by (auto simp add: raising_def)
  note e = touches_only_fields [OF touches_only_enable_channel 5]
  note c = touches_only_fields [OF touches_only_commit 6]
  obtain bytes where w3: "s3 = s2\<lparr>data_dat := Some bytes\<rparr>"
    using write_data_dat_None [OF 3] by blast
  have "sent_files s1 = sent_files s"
    using 1 by (auto simp add: set_samplerate_def)
  then show ?thesis
    using 1 2 3 4 e c upload_None(2,3,4) [OF 4] store_filter_frame(1) [OF 2] w3 by auto
qed

lemma upt_2: "[0..<2] = [0, 1]"
  by (simp add: upt_rec)

section \<open>The upload payload\<close>

lemma set_filter_payload:
  assumes run: "set_filter link ch rate fco s = (None, s')"
    and shape: "length (filter_ch1 s' ! x) = 6"
    and idx: "k < 2" "y < 6" "x < 4"
  shows "\<exists>bytes. sent_files s' = sent_files s @ [(CHR ''j'', bytes)] \<and> length bytes = 8 * 48
           \<and> payload_entry bytes (k * 24 + y * 4 + x) = fixed_point y (stored_coeff s' k x y)"
proof -
  from set_filter_None [OF run] obtain s2 s3 s4 where
    w: "write_data_dat s2 = (None, s3)" and u: "upload link s3 = (None, s4)"
    and f1: "filter_ch1 s' = filter_ch1 s2" and f2: "filter_ch2 s' = filter_ch2 s2"
    and sf: "sent_files s' = sent_files s4" "sent_files s2 = sent_files s"
    by blast
  from write_data_dat_None [OF w] obtain bytes where
    s3: "s3 = s2\<lparr>data_dat := Some bytes\<rparr>" and len: "length bytes = 384"
    and entry: "\<And>k y x. k < 2 \<Longrightarrow> y < 6 \<Longrightarrow> x < 4 \<Longrightarrow>
       unpack_q (take 8 (drop (8 * (k * 24 + y * 4 + x)) bytes))
         = fixed_point y ((filter_ch1 s2 ! x @ filter_ch2 s2 ! x) ! (y + k * 6))"
    by blast
  from upload_None(1) [OF u] have "sent_files s4 = sent_files s3 @ [(CHR ''j'', bytes)]"
    by (simp add: s3)
  then have sent: "sent_files s' = sent_files s @ [(CHR ''j'', bytes)]"
    using sf by (simp add: s3)
  have "k = 0 \<or> k = 1"
    using idx(1) by auto
  then have "(filter_ch1 s2 ! x @ filter_ch2 s2 ! x) ! (y + k * 6) = stored_coeff s' k x y"
    using shape idx(2) by (auto simp add: stored_coeff_def f1 f2 nth_append)
  then have "payload_entry bytes (k * 24 + y * 4 + x) = fixed_point y (stored_coeff s' k x y)"
    using entry [OF idx] by (simp add: payload_entry_def)
  then show ?thesis
    using sent len by simp
qed

lemma store_plain:
  "store_filter 1 (Some plain_rows) s =
     (None, s\<lparr>filter_ch1 := [[1, 1 / 2, 1, 1 / 2, 0, 0], all_pass, all_pass, [2, 1, 0, 0, 0, 0]]\<rparr>)"
proof -
  have d: "check_dimensions plain_rows = None"
    unfolding check_dimensions_None_iff by (simp add: plain_rows_def row_def all_pass_def)
  have v: "check_values plain_rows = None"
    by (simp add: check_values_def check_entry_eq upt_Suc0_5 upt_6 plain_rows_def row_def all_pass_def)
  have r: "reshape plain_rows = Inr [[1, 1 / 2, 1, 1 / 2, 0, 0], all_pass, all_pass, [2, 1, 0, 0, 0, 0]]"
    by (simp add: reshape_def plain_rows_def upt_Suc0_5 scale_section_def mul_entry_def get_entry_def
        set_entry_def get_row_def row_def bind_e_def py_index_def all_pass_def)
  show ?thesis
    by (simp add: store_filter_def d v deepcopy_def r)
qed

lemmas run_defs = set_filter_def raising_def check_parameter_valid_set_def set_samplerate_def
  write_data_dat_def combined_filters_def coeff_list_def coeff_entry_def bind_e_def py_index_def
  upt_4 upt_6 upt_2 IIR_COEFFWIDTH_def py_round_def write_order_def pack_q_def
  upload_def set_mmap_access_def send_file_def commit_def update_dependent_regs_def
  update_control_matrix_regs_def update_gains_offsets_regs_def copy_attr_def set_attr_def
  to_reg_signed_def to_reg_unsigned_def no_xform_def
  matrixscale_xform_def input_scale_xform_def output_scale_xform_def input_offset_xform_def
  output_offset_xform_def ADC_DEFAULT_CALIBRATION_def reg_defs enable_channel_def

lemma run_plain: "fst (set_filter link_up 1 ''high'' (Some plain_rows) example_state) = None"
  by (simp add: run_defs store_plain example_state_def link_up_def all_pass_def)

lemma example_fields:
  "sent_files example_state = []" "mmap_access example_state = False"
  "decfilter1 example_state = 0" "data_dat example_state = None"
  "filter_ch1 example_state = [all_pass, all_pass, all_pass, all_pass]"
  "filter_ch2 example_state = [all_pass, all_pass, all_pass, all_pass]"
  by (simp_all add: example_state_def all_pass_def)

lemma run_plain_state:
  "set_filter link_up 1 ''high'' (Some plain_rows) example_state
     = (None, snd (set_filter link_up 1 ''high'' (Some plain_rows) example_state))"
  using run_plain by (metis prod.collapse)

lemma run_plain_filters:
  "filter_ch1 (snd (set_filter link_up 1 ''high'' (Some plain_rows) example_state))
     = [[1, 1 / 2, 1, 1 / 2, 0, 0], all_pass, all_pass, [2, 1, 0, 0, 0, 0]]"
  "filter_ch2 (snd (set_filter link_up 1 ''high'' (Some plain_rows) example_state))
     = [all_pass, all_pass, all_pass, all_pass]"
proof -
  from set_filter_None [OF run_plain_state] obtain s2 where
    st: "store_filter 1 (Some plain_rows) (snd (set_samplerate 1 (if ''high'' = ''high'' then 8 else 1024) example_state)) = (None, s2)"
    and f: "filter_ch1 (snd (set_filter link_up 1 ''high'' (Some plain_rows) example_state)) = filter_ch1 s2"
       "filter_ch2 (snd (set_filter link_up 1 ''high'' (Some plain_rows) example_state)) = filter_ch2 s2"
    by blast
  from st have "s2 = (snd (set_samplerate 1 8 example_state))\<lparr>filter_ch1 := [[1, 1 / 2, 1, 1 / 2, 0, 0], all_pass, all_pass, [2, 1, 0, 0, 0, 0]]\<rparr>"
    by (simp add: store_plain)
  then show "filter_ch1 (snd (set_filter link_up 1 ''high'' (Some plain_rows) example_state))
     = [[1, 1 / 2, 1, 1 / 2, 0, 0], all_pass, all_pass, [2, 1, 0, 0, 0, 0]]"
    "filter_ch2 (snd (set_filter link_up 1 ''high'' (Some plain_rows) example_state))
     = [all_pass, all_pass, all_pass, all_pass]"
    using f by (simp_all add: set_samplerate_def example_fields)
qed

text \<open>
  C5, as the code has it. When \<open>set_filter\<close> returns, the device has received one more file
  under the tag \<open>j\<close>: 48 signed 64-bit integers, little-endian, 384 bytes. They are ordered
  by channel first, then by component, then by row: the integer at position
  \<open>24 * k + 4 * y + x\<close> is the fixed-point value of coefficient \<open>y\<close> of section \<open>x\<close> of
  channel \<open>k\<close>, as stored when the call returns (for sections of six coefficients).
\<close>

theorem payload_layout:
  assumes "set_filter link ch rate fco s = (None, s')"
    and "length (filter_ch1 s' ! x) = 6"
    and "k < 2" "y < 6" "x < 4"
  shows "\<exists>bytes. sent_files s' = sent_files s @ [(CHR ''j'', bytes)] \<and> length bytes = 8 * 48
           \<and> payload_entry bytes (k * 24 + y * 4 + x) = fixed_point y (stored_coeff s' k x y)"
  using assms by (rule set_filter_payload)

theorem payload_layout_witness:
  "fst (set_filter link_up 1 ''high'' (Some plain_rows) example_state) = None
   \<and> length (filter_ch1 (snd (set_filter link_up 1 ''high'' (Some plain_rows) example_state)) ! 0) = 6
   \<and> (\<exists>bytes. sent_files (snd (set_filter link_up 1 ''high'' (Some plain_rows) example_state))
                = [(CHR ''j'', bytes)]
              \<and> length bytes = 384 \<and> payload_entry bytes 4 = 2 ^ 44)"
proof -
  have shape: "length (filter_ch1 (snd (set_filter link_up 1 ''high'' (Some plain_rows) example_state)) ! 0) = 6"
    by (simp add: run_plain_filters)
  from payload_layout [OF run_plain_state shape, of 0 1] run_plain shape
  show ?thesis
    by (simp add: stored_coeff_def run_plain_filters fixed_point_def py_round_def example_fields)
qed

text \<open>
  C5, as stated, fails: in a component-major, then channel, then row order the gain slot of
  section 1 of channel 2 would stand at position 4. After \<open>set_filter(1, 'high', ...)\<close> on
  the example instrument that coefficient is \<open>2^24\<close>, and position 4 of the payload holds
  \<open>2^44\<close>, which is coefficient \<open>b0\<close> of section 1 of channel 1.
\<close>

theorem payload_not_component_major:
  "fst (set_filter link_up 1 ''high'' (Some plain_rows) example_state) = None
   \<and> (\<exists>bytes. sent_files (snd (set_filter link_up 1 ''high'' (Some plain_rows) example_state))
                = [(CHR ''j'', bytes)]
        \<and> payload_entry bytes (claimed_position 1 0 0) = 2 ^ 44)
   \<and> fixed_point 0 (stored_coeff (snd (set_filter link_up 1 ''high'' (Some plain_rows) example_state))
        1 0 0) = 2 ^ 24"
proof -
  have shape: "length (filter_ch1 (snd (set_filter link_up 1 ''high'' (Some plain_rows) example_state)) ! 0) = 6"
    by (simp add: run_plain_filters)
  from set_filter_payload [OF run_plain_state shape, of 0 1] run_plain
  show ?thesis
    by (auto simp add: stored_coeff_def run_plain_filters fixed_point_def py_round_def
        example_fields claimed_position_def all_pass_def)
qed

section \<open>The reshaping of the coefficient array\<close>

text \<open>
  When the five entries of the array are five different row objects, the reshaping does
  what the spec says: in each section \<open>s\<close> is multiplied into \<open>b0, b1, b2\<close>, the gain
  slots of sections 1 to 3 hold 1 and the gain slot of section 4 holds G.
\<close>

lemma scale_section_row:
  assumes "n < length (row_refs a)" "4 \<le> length (row a n)"
  shows "scale_section n a = Inr (a\<lparr>heap := (heap a)(row_refs a ! n := scaled_section (row a n))\<rparr>)"
proof -
  have "heap a (row_refs a ! n) \<noteq> []"
    using assms(2) by (auto simp add: row_def)
  then show ?thesis
    using assms
    by (simp add: scale_section_def mul_entry_def get_entry_def set_entry_def get_row_def row_def
        bind_e_def py_index_def scaled_section_def)
qed

lemma reshape_distinct:
  assumes refs: "row_refs fc = [r0, r1, r2, r3, r4]"
    and dist: "distinct [r0, r1, r2, r3, r4]"
    and g: "heap fc r0 \<noteq> []"
    and l1: "6 \<le> length (heap fc r1)" and l2: "6 \<le> length (heap fc r2)"
    and l3: "6 \<le> length (heap fc r3)" and l4: "6 \<le> length (heap fc r4)"
  shows "reshape fc =
           Inr [scaled_section (heap fc r1), scaled_section (heap fc r2),
                scaled_section (heap fc r3), (scaled_section (heap fc r4))[0 := heap fc r0 ! 0]]"
proof -
  have ne: "r1 \<noteq> r0" "r2 \<noteq> r0" "r3 \<noteq> r0" "r4 \<noteq> r0" "r2 \<noteq> r1" "r3 \<noteq> r1" "r4 \<noteq> r1"
    "r3 \<noteq> r2" "r4 \<noteq> r2" "r4 \<noteq> r3" "r0 \<noteq> r1" "r0 \<noteq> r2" "r0 \<noteq> r3" "r0 \<noteq> r4"
    "r1 \<noteq> r2" "r1 \<noteq> r3" "r1 \<noteq> r4" "r2 \<noteq> r3" "r2 \<noteq> r4" "r3 \<noteq> r4"
    using dist by auto
  let ?S = "\<lambda>r. scaled_section (heap fc r)"
  let ?a1 = "fc\<lparr>heap := (heap fc)(r1 := ?S r1)\<rparr>"
  let ?a2 = "fc\<lparr>heap := (heap fc)(r1 := ?S r1, r2 := ?S r2)\<rparr>"
  let ?a3 = "fc\<lparr>heap := (heap fc)(r1 := ?S r1, r2 := ?S r2, r3 := ?S r3)\<rparr>"
  let ?a4 = "fc\<lparr>heap := (heap fc)(r1 := ?S r1, r2 := ?S r2, r3 := ?S r3, r4 := ?S r4)\<rparr>"
  have 1: "scale_section (Suc 0) fc = Inr ?a1"
    using l1 by (subst scale_section_row) (simp_all add: refs row_def)
  have 2: "scale_section 2 ?a1 = Inr ?a2"
    using l2 ne by (subst scale_section_row) (simp_all add: refs row_def)
  have 3: "scale_section 3 ?a2 = Inr ?a3"
    using l3 ne by (subst scale_section_row) (simp_all add: refs row_def)
  have 4: "scale_section 4 ?a3 = Inr ?a4"
    using l4 ne by (subst scale_section_row) (simp_all add: refs row_def)
  have fold: "fold_e scale_section [1..<5] fc = Inr ?a4"
    unfolding upt_1_5 by (simp add: 1 2 3 4)
  have "?S r4 \<noteq> []"
    using l4 by (auto simp add: scaled_section_def)
  then show ?thesis
    unfolding reshape_def fold using g ne
    by (simp add: bind_e_def get_entry_def set_entry_def get_row_def row_def py_index_def refs)
qed

lemma scaled_section_nth:
  assumes "4 \<le> length r"
  shows "scaled_section r ! 0 = 1" "scaled_section r ! 1 = r ! 1 * r ! 0"
    "scaled_section r ! 2 = r ! 2 * r ! 0" "scaled_section r ! 3 = r ! 3 * r ! 0"
proof -
  have "0 < length r" "1 < length r" "2 < length r" "3 < length r"
    using assms by auto
  then show "scaled_section r ! 0 = 1" "scaled_section r ! 1 = r ! 1 * r ! 0"
    "scaled_section r ! 2 = r ! 2 * r ! 0" "scaled_section r ! 3 = r ! 3 * r ! 0"
    by (simp_all add: scaled_section_def)
qed

lemma reshape_distinct_sections:
  assumes "row_refs fc = [r0, r1, r2, r3, r4]" "distinct [r0, r1, r2, r3, r4]" "heap fc r0 \<noteq> []"
    and "6 \<le> length (heap fc r1)" "6 \<le> length (heap fc r2)"
    and "6 \<le> length (heap fc r3)" "6 \<le> length (heap fc r4)"
  shows "\<exists>rows. reshape fc = Inr rows \<and> length rows = 4
           \<and> (\<forall>k<4. \<forall>j\<in>{1, 2, 3}. rows ! k ! j = row fc (Suc k) ! 0 * row fc (Suc k) ! j)
           \<and> rows ! 0 ! 0 = 1 \<and> rows ! 1 ! 0 = 1 \<and> rows ! 2 ! 0 = 1
           \<and> rows ! 3 ! 0 = row fc 0 ! 0"
proof -
  let ?rows = "[scaled_section (heap fc r1), scaled_section (heap fc r2),
                scaled_section (heap fc r3), (scaled_section (heap fc r4))[0 := heap fc r0 ! 0]]"
  have len: "4 \<le> length (heap fc r1)" "4 \<le> length (heap fc r2)" "4 \<le> length (heap fc r3)"
    "4 \<le> length (heap fc r4)"
    using assms(4-7) by simp_all
  note n1 = scaled_section_nth [OF len(1)] and n2 = scaled_section_nth [OF len(2)]
    and n3 = scaled_section_nth [OF len(3)] and n4 = scaled_section_nth [OF len(4)]
  have l4: "0 < length (scaled_section (heap fc r4))"
    using len(4) by (auto simp add: scaled_section_def)
  have b: "?rows ! k ! j = row fc (Suc k) ! 0 * row fc (Suc k) ! j"
    if "k < 4" "j \<in> {1, 2, 3}" for k j
  proof -
    have "k = 0 \<or> k = 1 \<or> k = 2 \<or> k = 3"
      using that(1) by auto
    then show ?thesis
      using that(2) n1 n2 n3 n4 by (auto simp add: row_def assms(1) mult.commute)
  qed
  have "?rows ! 0 ! 0 = 1" "?rows ! 1 ! 0 = 1" "?rows ! 2 ! 0 = 1" "?rows ! 3 ! 0 = row fc 0 ! 0"
    using n1(1) n2(1) n3(1) l4 by (simp_all add: row_def assms(1))
  then show ?thesis
    using b reshape_distinct [OF assms] by auto
qed

lemma store_shared:
  "store_filter 1 (Some shared_rows) s =
     (None, s\<lparr>filter_ch1 := [[2, 1, 0, 0, 0, 0], [2, 1, 0, 0, 0, 0], [2, 1, 0, 0, 0, 0], [2, 1, 0, 0, 0, 0]]\<rparr>)"
proof -
  have d: "check_dimensions shared_rows = None"
    unfolding check_dimensions_None_iff by (simp add: shared_rows_def row_def all_pass_def)
  have v: "check_values shared_rows = None"
    by (simp add: check_values_def check_entry_eq upt_Suc0_5 upt_6 shared_rows_def row_def all_pass_def)
  have r: "reshape shared_rows = Inr [[2, 1, 0, 0, 0, 0], [2, 1, 0, 0, 0, 0], [2, 1, 0, 0, 0, 0], [2, 1, 0, 0, 0, 0]]"
    by (simp add: reshape_def shared_rows_def upt_Suc0_5 scale_section_def mul_entry_def get_entry_def
        set_entry_def get_row_def row_def bind_e_def py_index_def all_pass_def)
  show ?thesis
    by (simp add: store_filter_def d v deepcopy_def r)
qed

lemma run_shared: "fst (set_filter link_up 1 ''high'' (Some shared_rows) example_state) = None"
  by (simp add: run_defs store_shared example_state_def link_up_def)

text \<open>
  C1 (the code departs from the claim). \<open>deepcopy\<close> keeps the sharing between rows, and the
  loop and the move of G update rows in place. For \<open>b = [1.0, 1.0, 0.0, 0.0, 0.0, 0.0]\<close> and
  the array \<open>[[2.0], b, b, b, b]\<close>, which passes both checks, \<open>set_filter\<close> returns and
  the table stored for channel 1 has G = 2 in the gain slot of all four sections, where
  the claim has 1 in sections 1 to 3.
\<close>

theorem shared_rows_gain_slots:
  "fst (set_filter link_up 1 ''high'' (Some shared_rows) example_state) = None
   \<and> row shared_rows 0 = [2] \<and> row shared_rows 1 = [1, 1, 0, 0, 0, 0]
   \<and> filter_ch1 (snd (set_filter link_up 1 ''high'' (Some shared_rows) example_state))
       = [[2, 1, 0, 0, 0, 0], [2, 1, 0, 0, 0, 0], [2, 1, 0, 0, 0, 0], [2, 1, 0, 0, 0, 0]]"
proof -
  have run: "set_filter link_up 1 ''high'' (Some shared_rows) example_state
               = (None, snd (set_filter link_up 1 ''high'' (Some shared_rows) example_state))"
    using run_shared by (metis prod.collapse)
  from set_filter_None [OF run] obtain s2 where
    "store_filter 1 (Some shared_rows) (snd (set_samplerate 1 (if ''high'' = ''high'' then 8 else 1024) example_state)) = (None, s2)"
    and "filter_ch1 (snd (set_filter link_up 1 ''high'' (Some shared_rows) example_state)) = filter_ch1 s2"
    by blast
  then have "filter_ch1 (snd (set_filter link_up 1 ''high'' (Some shared_rows) example_state))
       = [[2, 1, 0, 0, 0, 0], [2, 1, 0, 0, 0, 0], [2, 1, 0, 0, 0, 0], [2, 1, 0, 0, 0, 0]]"
    by (auto simp add: store_shared)
  then show ?thesis
    using run_shared by (simp add: shared_rows_def row_def all_pass_def)
qed

lemma set_filter_no_rows:
  "set_filter link 1 ''high'' (Some no_rows) s =
     (Some (ValidationError ''number of coefficient array rows''), s\<lparr>decfilter1 := 8\<rparr>)"
  by (simp add: set_filter_def raising_def check_parameter_valid_set_def set_samplerate_def
      store_filter_def check_dimensions_def no_rows_def)

text \<open>
  C2 (the code departs from the claim). \<open>set_filter\<close> sets the sample rate of the channel's
  decimation filter before it looks at the coefficient array: called with a valid channel
  and sample rate and an array with no rows, it raises the validation error of the row
  count and leaves the decimation factor of channel 1 changed from 0 to 8.
\<close>

theorem set_filter_stages_sample_rate_first:
  "set_filter link_up 1 ''high'' (Some no_rows) example_state =
     (Some (ValidationError ''number of coefficient array rows''), example_state\<lparr>decfilter1 := 8\<rparr>)
   \<and> decfilter1 example_state = 0
   \<and> decfilter1 (snd (set_filter link_up 1 ''high'' (Some no_rows) example_state)) = 8"
  by (simp add: set_filter_no_rows example_fields)

lemma upload_send_fails:
  assumes "\<not> link SendFile"
  shows "fst (upload link s) \<noteq> None" "mmap_access (snd (upload link s)) = True"
proof -
  obtain r1 s1 where 1: "set_mmap_access (link MmapEnable) True s = (r1, s1)"
    by (cases "set_mmap_access (link MmapEnable) True s")
  have m: "mmap_access s1 = True"
    using set_mmap_access_result(1) [OF 1] .
  have 2: "send_file (link SendFile) CHR ''j'' s1 = (Some TransportError, s1)"
    using assms by (simp add: send_file_def split: option.splits)
  show "fst (upload link s) \<noteq> None" "mmap_access (snd (upload link s)) = True"
    using 1 2 m by (cases r1; simp add: upload_def)+
qed

lemma run_upload_fails:
  "fst (set_filter upload_fails 1 ''high'' (Some plain_rows) example_state) = Some TransportError"
  "mmap_access (snd (set_filter upload_fails 1 ''high'' (Some plain_rows) example_state)) = True"
  by (simp_all add: run_defs store_plain example_state_def upload_fails_def all_pass_def)

text \<open>
  C6 (the code departs from the claim). The three calls \<open>_set_mmap_access(True)\<close>,
  \<open>_send_file\<close>, \<open>_set_mmap_access(False)\<close> follow one another with no handler: when the
  upload fails with a transport error, \<open>set_filter\<close> ends with that error and the
  memory-access flag is left enabled.
\<close>

theorem mmap_access_left_enabled:
  "fst (set_filter upload_fails 1 ''high'' (Some plain_rows) example_state) = Some TransportError
   \<and> mmap_access example_state = False
   \<and> mmap_access (snd (set_filter upload_fails 1 ''high'' (Some plain_rows) example_state)) = True"
  by (simp add: run_upload_fails example_fields)

section \<open>The checks of the coefficient array\<close>

subsection \<open>Only the array checks raise validation errors\<close>

lemma is_validation_error_iff: "is_validation_error r \<longleftrightarrow> (\<exists>d. r = Some (ValidationError d))"
  by (cases r rule: is_validation_error.cases) simp_all

lemma never_validation_seq_all:
  assumes "\<And>f. f \<in> set fs \<Longrightarrow> never_validation f"
  shows "never_validation (seq_all fs)"
  using assms
proof (induction fs)
  case Nil
  show ?case by (simp add: never_validation_def)
next
  case (Cons f fs)
  have f: "never_validation f" and rest: "never_validation (seq_all fs)"
    using Cons by simp_all
  show ?case
    unfolding never_validation_def
  proof
    fix s
    obtain r s1 where fs1: "f s = (r, s1)" by (cases "f s")
    show "\<not> is_validation_error (fst (seq_all (f # fs) s))"
    proof (cases r)
      case None
      then show ?thesis
        using fs1 rest by (simp add: never_validation_def)
    next
      case (Some e)
      then show ?thesis
        using fs1 f by (auto simp add: never_validation_def dest: spec [of _ s])
    qed
  qed
qed

lemma never_validation_set_attr: "never_validation (set_attr a v)"
  unfolding never_validation_def
  by (cases a)
     (auto simp add: set_attr_def to_reg_unsigned_def to_reg_signed_def to_reg_bool_def no_xform_def
        matrixscale_xform_def input_scale_xform_def output_scale_xform_def input_offset_xform_def
        output_offset_xform_def Let_def split: sum.splits if_splits)

lemma never_validation_copy_attr: "never_validation (copy_attr a p)"
  using never_validation_set_attr by (simp add: never_validation_def copy_attr_def)

lemma never_validation_commit: "never_validation (commit ok)"
proof -
  have 1: "never_validation update_control_matrix_regs"
    unfolding update_control_matrix_regs_def
    by (rule never_validation_seq_all) (auto simp add: never_validation_copy_attr)
  have 2: "never_validation update_gains_offsets_regs"
    unfolding update_gains_offsets_regs_def
    by (rule never_validation_seq_all) (auto simp add: never_validation_copy_attr)
  have 3: "never_validation update_dependent_regs"
    unfolding update_dependent_regs_def
    by (rule never_validation_seq_all) (use 1 2 in auto)
  have 4: "never_validation (raising (if ok then None else Some TransportError))"
    by (simp add: never_validation_def raising_def)
  show ?thesis
    unfolding commit_def by (rule never_validation_seq_all) (use 3 4 in auto)
qed

lemma never_validation_upload: "never_validation (upload link)"
proof -
  have m: "never_validation (set_mmap_access ok b)" for ok b
    unfolding set_mmap_access_def
    by (rule never_validation_seq_all) (auto simp add: never_validation_commit, simp add: never_validation_def)
  have s: "never_validation (send_file ok tag)" for ok tag
    by (simp add: never_validation_def send_file_def split: option.splits)
  have r: "never_validation (\<lambda>s. (None, s\<lparr>data_dat := None\<rparr>))"
    by (simp add: never_validation_def)
  show ?thesis
    unfolding upload_def by (rule never_validation_seq_all) (use m s r in auto)
qed

lemma never_validation_enable_channel: "never_validation (enable_channel ch)"
  unfolding enable_channel_def
  by (auto intro!: never_validation_seq_all simp add: never_validation_set_attr)

lemma never_validation_write_data_dat: "never_validation write_data_dat"
  unfolding never_validation_def
proof
  fix s
  show "\<not> is_validation_error (fst (write_data_dat s))"
  proof (cases "bind_e (combined_filters s) coeff_list")
    case (Inl e)
    have "e = IndexError"
    proof (cases "combined_filters s")
      case l: (Inl e')
      then have "e' = e" using Inl by (simp add: bind_e_def)
      moreover from mapM_e_error [OF l [unfolded combined_filters_def]] have "e' = IndexError"
        by (auto simp add: bind_e_def py_index_def split: if_splits)
      ultimately show ?thesis by simp
    next
      case r: (Inr fcs)
      then have c: "coeff_list fcs = Inl e" using Inl by (simp add: bind_e_def)
      from mapM_e_error [OF c [unfolded coeff_list_def]] obtain x where "mapM_e (\<lambda>y. mapM_e (\<lambda>k. coeff_entry fcs x y k) [0..<2]) [0..<6] = Inl e"
        by blast
      from mapM_e_error [OF this] obtain y where "mapM_e (\<lambda>k. coeff_entry fcs x y k) [0..<2] = Inl e"
        by blast
      from mapM_e_error [OF this] obtain k where "coeff_entry fcs x y k = Inl e"
        by blast
      then show ?thesis
        by (auto simp add: coeff_entry_def bind_e_def py_index_def split: if_splits)
    qed
    then show ?thesis
      using Inl by (simp add: write_data_dat_def)
  next
    case (Inr cl)
    obtain r bytes where w: "write_packed (map (\<lambda>(k, y, x). cl ! x ! y ! k) write_order) [] = (r, bytes)"
      by (cases "write_packed (map (\<lambda>(k, y, x). cl ! x ! y ! k) write_order) []")
    then have "r = None \<or> r = Some StructError"
      using write_packed_error by (cases r) auto
    then show ?thesis
      using Inr w by (auto simp add: write_data_dat_def)
  qed
qed

lemma reshape_error:
  assumes "reshape a = Inl e"
  shows "e = IndexError"
proof -
  have se: "set_entry a m n v = Inl e \<Longrightarrow> e = IndexError" for a m n v e
    by (auto simp add: set_entry_def get_row_def bind_e_def split: if_splits)
  have ge: "get_entry a m n = Inl e \<Longrightarrow> e = IndexError" for a m n e
    by (auto simp add: get_entry_def get_row_def bind_e_def py_index_def split: if_splits)
  have me: "mul_entry a n j = Inl e \<Longrightarrow> e = IndexError" for a n j e
    unfolding mul_entry_def bind_e_def
    by (auto split: sum.splits dest: se ge)
  have sc: "scale_section n a = Inl e \<Longrightarrow> e = IndexError" for a n e
    unfolding scale_section_def bind_e_def
    by (auto split: sum.splits dest: se me)
  have fe: "fold_e scale_section ns a = Inl e \<Longrightarrow> e = IndexError" for ns a e
    by (induction ns arbitrary: a) (auto split: sum.splits dest: sc)
  show ?thesis
    using assms unfolding reshape_def bind_e_def
    by (auto split: sum.splits dest: se ge fe)
qed

lemma store_filter_validation:
  "is_validation_error (fst (store_filter ch (Some fc) s))
     \<longleftrightarrow> is_validation_error (first_error [check_dimensions fc, check_values fc])"
  by (auto simp add: store_filter_def split: option.splits sum.splits dest: reshape_error)

lemma store_filter_rejected:
  "first_error [check_dimensions fc, check_values fc] = Some e \<Longrightarrow>
   store_filter ch (Some fc) s = (Some e, s)"
  by (simp add: store_filter_def)

text \<open>With a valid channel and sample rate, a validation error of \<open>set_filter\<close> is one of the
  array checks, and the call has then changed nothing but the decimation factor.\<close>

lemma set_filter_validation:
  assumes "ch = 1 \<or> ch = 2" "rate = ''high'' \<or> rate = ''low''"
  shows "is_validation_error (fst (set_filter link ch rate (Some fc) s))
           \<longleftrightarrow> is_validation_error (first_error [check_dimensions fc, check_values fc])"
    and "first_error [check_dimensions fc, check_values fc] = Some e \<Longrightarrow>
           set_filter link ch rate (Some fc) s
             = (Some e, snd (set_samplerate ch (if rate = ''high'' then 8 else 1024) s))"
proof -
  let ?s1 = "snd (set_samplerate ch (if rate = ''high'' then 8 else 1024) s)"
  let ?tail = "seq_all [write_data_dat, upload link, enable_channel ch, commit (link FinalCommit)]"
  have tail: "never_validation ?tail"
    by (rule never_validation_seq_all)
       (auto simp add: never_validation_write_data_dat never_validation_upload
          never_validation_enable_channel never_validation_commit)
  have eq: "set_filter link ch rate (Some fc) s =
              (case store_filter ch (Some fc) ?s1 of
                 (Some e, s2) \<Rightarrow> (Some e, s2)
               | (None, s2) \<Rightarrow> ?tail s2)"
    using assms
    by (auto simp add: set_filter_def raising_def check_parameter_valid_set_def set_samplerate_def)
  show "is_validation_error (fst (set_filter link ch rate (Some fc) s))
           \<longleftrightarrow> is_validation_error (first_error [check_dimensions fc, check_values fc])"
  proof (cases "store_filter ch (Some fc) ?s1")
    case (Pair r s2)
    show ?thesis
    proof (cases r)
      case None
      then have "\<not> is_validation_error (fst (set_filter link ch rate (Some fc) s))"
        using Pair tail by (simp add: eq never_validation_def)
      moreover have "\<not> is_validation_error (first_error [check_dimensions fc, check_values fc])"
        using store_filter_validation [of ch fc ?s1] Pair None by simp
      ultimately show ?thesis by simp
    next
      case (Some e')
      then have "fst (set_filter link ch rate (Some fc) s) = fst (store_filter ch (Some fc) ?s1)"
        using Pair by (simp add: eq)
      then show ?thesis
        by (simp add: store_filter_validation)
    qed
  qed
  show "set_filter link ch rate (Some fc) s = (Some e, ?s1)"
    if "first_error [check_dimensions fc, check_values fc] = Some e"
    using store_filter_rejected [OF that, of ch ?s1] by (simp add: eq)
qed

subsection \<open>The ranges accepted\<close>

lemma check_values_full_shape:
  assumes "length (row_refs fc) = 5" "length (row fc 0) = 1" "\<forall>m\<in>{1..<5}. length (row fc m) = 6"
  shows "check_values fc = None \<longleftrightarrow>
           gain_ok (row fc 0 ! 0) \<and> (\<forall>m\<in>{1..<5}. \<forall>n<6. coeff_ok (row fc m ! n))"
    and "check_values fc = Some e \<Longrightarrow> e = ValidationError entry_desc"
proof -
  show "check_values fc = None \<longleftrightarrow>
           gain_ok (row fc 0 ! 0) \<and> (\<forall>m\<in>{1..<5}. \<forall>n<6. coeff_ok (row fc m ! n))"
    using assms(3) by (simp add: check_values_None_iff [OF assms(1,2)])
  assume "check_values fc = Some e"
  then have "Some e \<in> set (check_entry fc 0 0 (- 8000000) (8000000 - 1 / 2 ^ 24)
        # concat (map (\<lambda>m. map (\<lambda>n. check_entry fc m n (- 4) (4 - 1 / 2 ^ 45)) [0..<6]) [1..<5]))"
    unfolding check_values_def by (rule first_error_Some_mem)
  then consider "Some e = check_entry fc 0 0 (- 8000000) (8000000 - 1 / 2 ^ 24)"
    | m n where "m \<in> {1..<5}" "n < 6" "Some e = check_entry fc m n (- 4) (4 - 1 / 2 ^ 45)"
    by (auto simp del: upt_Suc)
  then show "e = ValidationError entry_desc"
  proof cases
    case 1
    then show ?thesis
      using assms(1,2) by (auto simp add: check_entry_eq split: if_splits)
  next
    case 2
    then have "m < length (row_refs fc)" "n < length (row fc m)"
      using assms(1,3) by auto
    then show ?thesis
      using 2(3) by (auto simp add: check_entry_eq split: if_splits)
  qed
qed

lemma set_filter_ranges:
  assumes "ch = 1 \<or> ch = 2" and "rate = ''high'' \<or> rate = ''low''"
    and "length (row_refs fc) = 5" and "length (row fc 0) = 1"
    and "\<forall>m\<in>{1..<5}. length (row fc m) = 6"
  shows "(is_validation_error (fst (set_filter link ch rate (Some fc) s))
            \<longleftrightarrow> \<not> (gain_ok (row fc 0 ! 0) \<and> (\<forall>m\<in>{1..<5}. \<forall>n<6. coeff_ok (row fc m ! n))))
       \<and> (is_validation_error (fst (set_filter link ch rate (Some fc) s)) \<longrightarrow>
            sent_files (snd (set_filter link ch rate (Some fc) s)) = sent_files s
          \<and> data_dat (snd (set_filter link ch rate (Some fc) s)) = data_dat s
          \<and> mmap_access (snd (set_filter link ch rate (Some fc) s)) = mmap_access s
          \<and> filter_ch1 (snd (set_filter link ch rate (Some fc) s)) = filter_ch1 s
          \<and> filter_ch2 (snd (set_filter link ch rate (Some fc) s)) = filter_ch2 s)"
proof -
  have dims: "check_dimensions fc = None"
    unfolding check_dimensions_None_iff using assms(3-5) by simp
  then have fe: "first_error [check_dimensions fc, check_values fc] = check_values fc"
    by (cases "check_values fc") simp_all
  have v: "is_validation_error (fst (set_filter link ch rate (Some fc) s))
             \<longleftrightarrow> is_validation_error (check_values fc)"
    using set_filter_validation(1) [OF assms(1,2)] by (simp add: fe)
  have "is_validation_error (check_values fc) \<longleftrightarrow> check_values fc \<noteq> None"
    using check_values_full_shape(2) [OF assms(3-5)]
    by (cases "check_values fc") auto
  then have iff: "is_validation_error (fst (set_filter link ch rate (Some fc) s))
            \<longleftrightarrow> \<not> (gain_ok (row fc 0 ! 0) \<and> (\<forall>m\<in>{1..<5}. \<forall>n<6. coeff_ok (row fc m ! n)))"
    using v check_values_full_shape(1) [OF assms(3-5)] by simp
  have "sent_files (snd (set_filter link ch rate (Some fc) s)) = sent_files s
          \<and> data_dat (snd (set_filter link ch rate (Some fc) s)) = data_dat s
          \<and> mmap_access (snd (set_filter link ch rate (Some fc) s)) = mmap_access s
          \<and> filter_ch1 (snd (set_filter link ch rate (Some fc) s)) = filter_ch1 s
          \<and> filter_ch2 (snd (set_filter link ch rate (Some fc) s)) = filter_ch2 s"
    if "is_validation_error (fst (set_filter link ch rate (Some fc) s))"
  proof -
    from that v obtain e where "check_values fc = Some e"
      by (cases "check_values fc") auto
    then have "first_error [check_dimensions fc, check_values fc] = Some e"
      using fe by simp
    from set_filter_validation(2) [OF assms(1,2) this, of link s] show ?thesis
      by (simp add: set_samplerate_def)
  qed
  with iff show ?thesis
    by blast
qed

lemma plain_rows_shape:
  "length (row_refs plain_rows) = 5" "length (row plain_rows 0) = 1"
  "\<forall>m\<in>{1..<5}. length (row plain_rows m) = 6"
  unfolding ball_1_5 by (simp_all add: plain_rows_def row_def all_pass_def)

lemma plain_rows_ranges:
  "gain_ok (row plain_rows 0 ! 0)" "\<forall>m\<in>{1..<5}. \<forall>n<6. coeff_ok (row plain_rows m ! n)"
  unfolding ball_1_5 all_less_6
  by (simp_all add: plain_rows_def row_def all_pass_def gain_ok_def coeff_ok_def)

lemma gain_near_limit_shape:
  "length (row_refs gain_near_limit) = 5" "length (row gain_near_limit 0) = 1"
  "\<forall>m\<in>{1..<5}. length (row gain_near_limit m) = 6"
  unfolding ball_1_5 by (simp_all add: gain_near_limit_def row_def all_pass_def)

text \<open>
  C4, as the code has it. For a well-formed array (a gain row and four sections of six
  coefficients) and a valid channel and sample rate, \<open>set_filter\<close> raises a validation
  error exactly when the gain lies outside \<open>[-8e6, 8e6 - 2^-24]\<close> or some coefficient of a
  section lies outside \<open>[-4, 4 - 2^-45]\<close>, both bounds included; when it does, nothing has
  been uploaded, no scratch file written, and the stored filters and the memory-access
  flag are as before.
\<close>

theorem set_filter_accepts_exactly:
  assumes "ch = 1 \<or> ch = 2" and "rate = ''high'' \<or> rate = ''low''"
    and "length (row_refs fc) = 5" and "length (row fc 0) = 1"
    and "\<forall>m\<in>{1..<5}. length (row fc m) = 6"
  shows "(is_validation_error (fst (set_filter link ch rate (Some fc) s))
            \<longleftrightarrow> \<not> (gain_ok (row fc 0 ! 0) \<and> (\<forall>m\<in>{1..<5}. \<forall>n<6. coeff_ok (row fc m ! n))))
       \<and> (is_validation_error (fst (set_filter link ch rate (Some fc) s)) \<longrightarrow>
            sent_files (snd (set_filter link ch rate (Some fc) s)) = sent_files s
          \<and> data_dat (snd (set_filter link ch rate (Some fc) s)) = data_dat s
          \<and> mmap_access (snd (set_filter link ch rate (Some fc) s)) = mmap_access s
          \<and> filter_ch1 (snd (set_filter link ch rate (Some fc) s)) = filter_ch1 s
          \<and> filter_ch2 (snd (set_filter link ch rate (Some fc) s)) = filter_ch2 s)"
  using assms by (rule set_filter_ranges)

theorem set_filter_accepts_exactly_witness:
  "gain_ok (row plain_rows 0 ! 0)
   \<and> \<not> is_validation_error (fst (set_filter link_up 1 ''high'' (Some plain_rows) example_state))
   \<and> \<not> gain_ok (row gain_near_limit 0 ! 0)
   \<and> is_validation_error (fst (set_filter link_up 1 ''high'' (Some gain_near_limit) example_state))
   \<and> sent_files (snd (set_filter link_up 1 ''high'' (Some gain_near_limit) example_state)) = []"
proof -
  have bad: "\<not> gain_ok (row gain_near_limit 0 ! 0)"
    by (simp add: gain_near_limit_def row_def gain_ok_def)
  have c: "(1::int) = 1 \<or> (1::int) = 2" "''high'' = ''high'' \<or> ''high'' = ''low''"
    by simp_all
  from set_filter_accepts_exactly [OF c plain_rows_shape, of link_up example_state]
    set_filter_accepts_exactly [OF c gain_near_limit_shape, of link_up example_state]
    plain_rows_ranges bad
  show ?thesis
    by (simp add: example_fields)
qed

text \<open>
  C4, as stated, fails: a gain of \<open>8e6 - 2^-25\<close> lies in \<open>[-8e6, 8e6)\<close> and all the
  coefficients of the array lie in \<open>[-4, 4)\<close>, yet \<open>set_filter\<close> raises a validation error.
\<close>

theorem half_open_range_rejected:
  "claimed_ranges gain_near_limit
   \<and> is_validation_error (fst (set_filter link_up 1 ''high'' (Some gain_near_limit) example_state))"
proof -
  have "claimed_ranges gain_near_limit"
    unfolding claimed_ranges_def ball_1_5 all_less_6
    by (simp add: gain_near_limit_def row_def all_pass_def)
  moreover have "check_dimensions gain_near_limit = None"
    unfolding check_dimensions_None_iff by (simp add: gain_near_limit_def row_def all_pass_def)
  moreover have "check_values gain_near_limit = Some (ValidationError entry_desc)"
    by (simp add: check_values_def check_entry_eq gain_near_limit_def row_def)
  ultimately show ?thesis
    by (simp add: set_filter_def raising_def check_parameter_valid_set_def set_samplerate_def
        store_filter_def)
qed

subsection \<open>A fourth section that is too short\<close>

lemma first_error_append:
  "first_error (as @ bs) = (case first_error as of None \<Rightarrow> first_error bs | Some e \<Rightarrow> Some e)"
  by (induction as rule: first_error.induct) simp_all

lemma upt_1_5_split: "[1..<5] = [1..<4] @ [4]"
  by (simp add: upt_rec)

lemma check_values_short_row:
  assumes five: "length (row_refs fc) = 5" and one: "length (row fc 0) = 1"
    and six: "\<forall>m\<in>{1..<4}. length (row fc m) = 6" and short: "length (row fc 4) < 6"
  shows "check_values fc =
           (if gain_ok (row fc 0 ! 0) \<and> (\<forall>m\<in>{1..<4}. \<forall>n<6. coeff_ok (row fc m ! n))
               \<and> (\<forall>n<length (row fc 4). coeff_ok (row fc 4 ! n))
            then Some IndexError else Some (ValidationError entry_desc))"
proof -
  let ?c = "\<lambda>m n. check_entry fc m n (- 4) (4 - 1 / 2 ^ 45)"
  let ?g = "check_entry fc 0 0 (- 8000000) (8000000 - 1 / 2 ^ 24)"
  let ?n0 = "length (row fc 4)"
  let ?as = "?g # concat (map (\<lambda>m. map (?c m) [0..<6]) [1..<4]) @ map (?c 4) [0..<?n0]"
  let ?bs = "map (?c 4) [Suc ?n0..<6]"
  have split6: "[0..<6] = [0..<?n0] @ ?n0 # [Suc ?n0..<6]"
  proof -
    have "[0..<?n0 + (6 - ?n0)] = [0..<?n0] @ [?n0..<?n0 + (6 - ?n0)]"
      by (rule upt_add_eq_append) simp
    moreover have "?n0 + (6 - ?n0) = 6"
      using short by simp
    moreover have "[?n0..<6] = ?n0 # [Suc ?n0..<6]"
      using short by (rule upt_conv_Cons)
    ultimately show ?thesis
      by (simp only:)
  qed
  have missing: "?c 4 ?n0 = Some IndexError"
    by (simp add: check_entry_eq)
  have rows: "concat (map (\<lambda>m. map (?c m) [0..<6]) [1..<5])
                = concat (map (\<lambda>m. map (?c m) [0..<6]) [1..<4]) @ map (?c 4) [0..<6]"
    unfolding upt_1_5_split by simp
  have last_row: "map (?c 4) [0..<6] = map (?c 4) [0..<?n0] @ ?c 4 ?n0 # ?bs"
    by (subst split6) simp
  have "check_values fc = first_error (?as @ ?c 4 ?n0 # ?bs)"
    unfolding check_values_def rows last_row by simp
  then have cv: "check_values fc = (case first_error ?as of None \<Rightarrow> Some IndexError | Some e \<Rightarrow> Some e)"
    by (simp only: first_error_append missing first_error.simps)
  have g: "?g = None \<longleftrightarrow> gain_ok (row fc 0 ! 0)"
    by (rule check_gain_None_iff) (use five one in simp_all)
  have c: "?c m n = None \<longleftrightarrow> coeff_ok (row fc m ! n)" if "m \<in> {1..<4}" "n < 6" for m n
    using check_coeff_None_iff [of m fc n] that six five by auto
  have c4: "?c 4 n = None \<longleftrightarrow> coeff_ok (row fc 4 ! n)" if "n < ?n0" for n
    using check_coeff_None_iff [of 4 fc n] that five by auto
  have "first_error ?as = None \<longleftrightarrow>
          ?g = None \<and> (\<forall>m\<in>{1..<4}. \<forall>n\<in>{0..<6}. ?c m n = None)
          \<and> (\<forall>n\<in>{0..<?n0}. ?c 4 n = None)"
    unfolding first_error_None_iff by (auto simp del: upt_Suc)
  moreover have "(\<forall>m\<in>{1..<4}. \<forall>n\<in>{0..<6}. ?c m n = None)
                   \<longleftrightarrow> (\<forall>m\<in>{1..<4}. \<forall>n<6. coeff_ok (row fc m ! n))"
    using c by (meson atLeastLessThan_iff zero_le)
  moreover have "(\<forall>n\<in>{0..<?n0}. ?c 4 n = None) \<longleftrightarrow> (\<forall>n<?n0. coeff_ok (row fc 4 ! n))"
    using c4 by (meson atLeastLessThan_iff zero_le)
  ultimately have none: "first_error ?as = None \<longleftrightarrow>
                gain_ok (row fc 0 ! 0) \<and> (\<forall>m\<in>{1..<4}. \<forall>n<6. coeff_ok (row fc m ! n))
                \<and> (\<forall>n<?n0. coeff_ok (row fc 4 ! n))"
    using g by (simp only:)
  have some: "e = ValidationError entry_desc" if "first_error ?as = Some e" for e
  proof -
    from first_error_Some_mem [OF that]
    consider "Some e = ?g" | m n where "m \<in> {1..<4}" "n < 6" "Some e = ?c m n"
      | n where "n < ?n0" "Some e = ?c 4 n"
      by (auto simp del: upt_Suc)
    then show ?thesis
    proof cases
      case 1
      then show ?thesis
        using five one by (auto simp add: check_entry_eq split: if_splits)
    next
      case 2
      then have "m < length (row_refs fc)" "n < length (row fc m)"
        using five six by auto
      then show ?thesis
        using 2(3) by (auto simp add: check_entry_eq split: if_splits)
    next
      case 3
      then show ?thesis
        using five by (auto simp add: check_entry_eq split: if_splits)
    qed
  qed
  show ?thesis
  proof (cases "first_error ?as")
    case None
    then show ?thesis
      using none cv by simp
  next
    case (Some e)
    then have "e = ValidationError entry_desc"
      by (rule some)
    then show ?thesis
      using Some none cv by auto
  qed
qed

lemma set_filter_short_row:
  assumes "ch = 1 \<or> ch = 2" and "rate = ''high'' \<or> rate = ''low''"
    and five: "length (row_refs fc) = 5" and one: "length (row fc 0) = 1"
    and six: "\<forall>m\<in>{1..<4}. length (row fc m) = 6" and short: "length (row fc 4) < 6"
  shows "check_dimensions fc = None
       \<and> fst (set_filter link ch rate (Some fc) s) =
           (if gain_ok (row fc 0 ! 0) \<and> (\<forall>m\<in>{1..<4}. \<forall>n<6. coeff_ok (row fc m ! n))
               \<and> (\<forall>n<length (row fc 4). coeff_ok (row fc 4 ! n))
            then Some IndexError
            else Some (ValidationError ''coefficient array entry m = 0, n = 0''))"
proof -
  have "length (row fc 1) = 6" "length (row fc 2) = 6" "length (row fc 3) = 6"
    using six by simp_all
  then have dims: "check_dimensions fc = None"
    unfolding check_dimensions_None_iff using five one by simp
  let ?e = "if gain_ok (row fc 0 ! 0) \<and> (\<forall>m\<in>{1..<4}. \<forall>n<6. coeff_ok (row fc m ! n))
               \<and> (\<forall>n<length (row fc 4). coeff_ok (row fc 4 ! n))
            then IndexError else ValidationError entry_desc"
  have "check_values fc = Some ?e"
    unfolding check_values_short_row [OF five one six short] by simp
  then have "first_error [check_dimensions fc, check_values fc] = Some ?e"
    using dims by simp
  from set_filter_validation(2) [OF assms(1,2) this, of link s]
  have "fst (set_filter link ch rate (Some fc) s) = Some ?e"
    by simp
  then show ?thesis
    using dims by (simp add: entry_desc_def)
qed

lemma upt_1_4: "[1..<4] = [1, 2, 3]"
  by (simp add: upt_rec)

lemma ball_1_4: "(\<forall>m\<in>{1..<4}. P m) \<longleftrightarrow> P 1 \<and> P 2 \<and> P (3::nat)"
proof -
  have "{1..<4} = set [1, 2, 3::nat]"
    unfolding atLeastLessThan_upt upt_1_4 ..
  then show ?thesis by simp
qed

lemma short_row_shape:
  "length (row_refs short_row) = 5" "length (row short_row 0) = 1"
  "\<forall>m\<in>{1..<4}. length (row short_row m) = 6" "length (row short_row 4) < 6"
  unfolding ball_1_4 by (simp_all add: short_row_def row_def all_pass_def)

lemma short_row_ranges:
  "gain_ok (row short_row 0 ! 0)" "\<forall>m\<in>{1..<4}. \<forall>n<6. coeff_ok (row short_row m ! n)"
  "\<forall>n<length (row short_row 4). coeff_ok (row short_row 4 ! n)"
  unfolding ball_1_4 all_less_6
  by (simp_all add: short_row_def row_def all_pass_def gain_ok_def coeff_ok_def less_Suc_eq)

text \<open>
  C10, as the code has it. For an array of five rows whose row 0 has one entry and whose
  rows 1 to 3 have six, with fewer than six entries in row 4: the dimension check passes
  (it never looks at row 4), and \<open>set_filter\<close> fails in the value check. It fails with an
  out-of-bounds index access when the gain, the coefficients of rows 1 to 3 and the entries
  row 4 does have are all within range; otherwise with the range check's validation error,
  whose description names entry (0, 0). In no case is the malformed row named.
\<close>

theorem short_fourth_section:
  assumes "ch = 1 \<or> ch = 2" and "rate = ''high'' \<or> rate = ''low''"
    and "length (row_refs fc) = 5" and "length (row fc 0) = 1"
    and "\<forall>m\<in>{1..<4}. length (row fc m) = 6" and "length (row fc 4) < 6"
  shows "check_dimensions fc = None
       \<and> fst (set_filter link ch rate (Some fc) s) =
           (if gain_ok (row fc 0 ! 0) \<and> (\<forall>m\<in>{1..<4}. \<forall>n<6. coeff_ok (row fc m ! n))
               \<and> (\<forall>n<length (row fc 4). coeff_ok (row fc 4 ! n))
            then Some IndexError
            else Some (ValidationError ''coefficient array entry m = 0, n = 0''))"
  using assms by (rule set_filter_short_row)

theorem short_fourth_section_witness:
  "length (row short_row 4) = 2 \<and> check_dimensions short_row = None
   \<and> fst (set_filter link_up 1 ''high'' (Some short_row) example_state) = Some IndexError"
proof -
  have c: "(1::int) = 1 \<or> (1::int) = 2" "''high'' = ''high'' \<or> ''high'' = ''low''"
    by simp_all
  from short_fourth_section [OF c short_row_shape, of link_up example_state] short_row_ranges
  show ?thesis
    by (simp add: short_row_def row_def)
qed

text \<open>
  C10, as stated, fails: with a gain of \<open>1e7\<close> and a row 4 of two entries the value check
  does not fail with an index access; it raises the validation error of the gain.
\<close>

theorem short_fourth_section_validation_first:
  "length (row_refs short_row_big_gain) = 5 \<and> length (row short_row_big_gain 0) = 1
   \<and> length (row short_row_big_gain 1) = 6 \<and> length (row short_row_big_gain 2) = 6
   \<and> length (row short_row_big_gain 3) = 6 \<and> length (row short_row_big_gain 4) = 2
   \<and> fst (set_filter link_up 1 ''high'' (Some short_row_big_gain) example_state)
       = Some (ValidationError ''coefficient array entry m = 0, n = 0'')"
proof -
  have "check_dimensions short_row_big_gain = None"
    unfolding check_dimensions_None_iff by (simp add: short_row_big_gain_def row_def all_pass_def)
  moreover have "check_values short_row_big_gain = Some (ValidationError entry_desc)"
    by (simp add: check_values_def check_entry_eq short_row_big_gain_def row_def)
  ultimately show ?thesis
    by (simp add: set_filter_def raising_def check_parameter_valid_set_def set_samplerate_def
        store_filter_def entry_desc_def short_row_big_gain_def row_def all_pass_def)
qed

end
